theory Spec2Isabelle
  imports Complex_Main
begin

unbundle bit_operations_syntax

section \<open>Errors and JavaScript arithmetic\<close>

text \<open>
  Every \<^verbatim>\<open>throw\<close> and every \<^verbatim>\<open>reject\<close> of the sources is a value of \<open>error\<close>.
  JavaScript has one \<^verbatim>\<open>Error\<close> class; the constructors keep apart the places that raise:
  \<^item> \<open>InvalidArgument name\<close>: \<^verbatim>\<open>throwValidationError(name, ...)\<close>, \<^verbatim>\<open>validateInteger(name, ...)\<close>
    and the range check of \<^verbatim>\<open>staggerPercent\<close> in \<^verbatim>\<open>uploadLargeFile\<close>;
  \<^item> \<open>MalformedSkylink\<close>: the length check of \<^verbatim>\<open>decodeSkylinkBase64\<close>;
  \<^item> \<open>UploadIncomplete\<close>: \<^verbatim>\<open>'upload.url' was not set\<close>;
  \<^item> \<open>TransportError msg\<close>: a failure reported by the transfer engine or the HTTP client;
  \<^item> \<open>RuntimeError msg\<close>: an error raised by the JavaScript runtime or a library
    (\<^verbatim>\<open>TypeError\<close>, \<^verbatim>\<open>RangeError\<close>, ...).

  Sizes and counts are JavaScript numbers that hold integers; they are modelled as
  \<open>int\<close>, exact. JavaScript computes in IEEE doubles, which are exact on integers
  below \<open>2 ^ 53\<close> and round above: the model is the code for sizes below \<open>2 ^ 53\<close>, and
  every theorem about the arithmetic of the partitioner has \<open>totalSize < 2 ^ 53\<close> among
  its hypotheses.
\<close>

datatype error =
    InvalidArgument string
  | MalformedSkylink
  | UploadIncomplete
  | TransportError string
  | RuntimeError string

text \<open>
  Modelled from the spec: \<^verbatim>\<open>throwValidationError\<close> is imported from
  \<^verbatim>\<open>utils_validation.js\<close>, which is not among the sources. By the specification
  (sections 4.2, 4.3 and 7) a violated precondition fails with \<open>InvalidArgument\<close>; the
  model keeps the name of the offending parameter, the first argument of the call.
\<close>

definition throwValidationError :: "string \<Rightarrow> error + 'a" where
  "throwValidationError name = Inl (InvalidArgument name)"

text \<open>
  The remainder operator \<^verbatim>\<open>%\<close> of JavaScript truncates towards zero: the result has
  the sign of the dividend.
\<close>

definition js_rem :: "int \<Rightarrow> int \<Rightarrow> int" where
  "js_rem a b = sgn a * (\<bar>a\<bar> mod \<bar>b\<bar>)"

text \<open>The result of \<^verbatim>\<open>Math.floor(a / b)\<close> for integers \<open>a\<close> and \<open>b \<noteq> 0\<close>.\<close>

definition js_floor_div :: "int \<Rightarrow> int \<Rightarrow> int" where
  "js_floor_div a b = a div b"

section \<open>The chunk partitioner: \<^verbatim>\<open>splitSizeIntoChunkAlignedParts\<close> (upload.js, lines 164-210)\<close>

text \<open>A part \<^verbatim>\<open>{ start, end }\<close>: the half-open byte range from \<open>start\<close> to \<open>finish\<close>.\<close>

record part =
  start :: int
  finish :: int

definition part_length :: "part \<Rightarrow> int" where
  "part_length p = finish p - start p"

text \<open>
  \<^verbatim>\<open>partSizes[k] += v\<close>. Under the three guards of the function every index it uses is
  inside the array (lemma \<open>chunk_index_in_range\<close> and lemma \<open>leftover_index_in_range\<close>
  below), so the update never extends the array.
\<close>

definition add_at :: "int list \<Rightarrow> nat \<Rightarrow> int \<Rightarrow> int list" where
  "add_at partSizes k v = partSizes[k := partSizes ! k + v]"

text \<open>
  The first loop, lines 182-184:
  \<^verbatim>\<open>for (let i = 0; i < numFullChunks; i++) partSizes[i % partCount] += chunkSize;\<close>
\<close>

definition assign_chunks :: "int \<Rightarrow> int \<Rightarrow> int \<Rightarrow> int list \<Rightarrow> int list" where
  "assign_chunks numFullChunks partCount chunkSize partSizes =
     fold (\<lambda>i ps. add_at ps (nat (js_rem (int i) partCount)) chunkSize)
       [0..<nat numFullChunks] partSizes"

text \<open>
  The second loop, lines 199-207: each part starts at the last boundary and ends
  \<^verbatim>\<open>partSizes[i]\<close> later; the state is the pair of \<^verbatim>\<open>parts\<close> and \<^verbatim>\<open>lastBoundary\<close>.
\<close>

definition sizes_to_parts :: "int \<Rightarrow> int list \<Rightarrow> part list" where
  "sizes_to_parts partCount partSizes =
     fst (fold (\<lambda>i (parts, lastBoundary).
                  (parts @ [\<lparr>start = lastBoundary, finish = lastBoundary + partSizes ! i\<rparr>],
                   lastBoundary + partSizes ! i))
            [0..<nat partCount] ([], 0))"

text \<open>
  The function: the three guards in the order of the source, the allocation of
  \<^verbatim>\<open>partSizes\<close>, the two loops. \<^verbatim>\<open>new Array(partCount)\<close> raises \<^verbatim>\<open>RangeError\<close> for a
  length above \<open>2 ^ 32 - 1\<close>, the longest array of the language.
\<close>

definition splitSizeIntoChunkAlignedParts :: "int \<Rightarrow> int \<Rightarrow> int \<Rightarrow> error + part list" where
  "splitSizeIntoChunkAlignedParts totalSize partCount chunkSize =
     (if partCount < 1 then throwValidationError ''partCount''
      else if chunkSize < 1 then throwValidationError ''chunkSize''
      else if totalSize \<le> chunkSize then throwValidationError ''totalSize''
      else if partCount > 2 ^ 32 - 1 then Inl (RuntimeError ''RangeError'')
      else
        let partSizes = replicate (nat partCount) 0;
            numFullChunks = js_floor_div totalSize chunkSize;
            partSizes = assign_chunks numFullChunks partCount chunkSize partSizes;
            leftover = js_rem totalSize chunkSize;
            partSizes =
              (if leftover > 0
               then add_at partSizes (nat (min numFullChunks (partCount - 1))) leftover
               else partSizes)
        in Inr (sizes_to_parts partCount partSizes))"

subsection \<open>The partition as the specification words it\<close>

text \<open>
  The specification of the part sizes, in closed form: part \<open>j\<close> receives one
  \<open>chunkSize\<close> for every \<open>i\<close> in \<open>[0, fullChunks)\<close> with \<open>i mod partCount = j\<close>, and
  the part at index \<open>min fullChunks (partCount - 1)\<close> receives the leftover when it is
  positive. It is compared with the loops of the source below.
\<close>

definition spec_sizes :: "int \<Rightarrow> int \<Rightarrow> int \<Rightarrow> int list" where
  "spec_sizes totalSize partCount chunkSize =
     (let fullChunks = totalSize div chunkSize;
          leftover = totalSize mod chunkSize
      in map (\<lambda>j. chunkSize * int (length (filter (\<lambda>i. int i mod partCount = int j) [0..<nat fullChunks]))
                  + (if leftover > 0 \<and> int j = min fullChunks (partCount - 1) then leftover else 0))
           [0..<nat partCount])"

text \<open>Sizes to ranges by cumulative offsets from 0, in part order.\<close>

definition spec_ranges :: "int list \<Rightarrow> part list" where
  "spec_ranges sizes =
     map (\<lambda>j. \<lparr>start = sum_list (take j sizes), finish = sum_list (take j sizes) + sizes ! j\<rparr>)
       [0..<length sizes]"

subsection \<open>Auxiliary views of the two loops\<close>

text \<open>The first loop with its indices read as natural numbers.\<close>

definition round_robin :: "nat \<Rightarrow> int \<Rightarrow> nat \<Rightarrow> int list \<Rightarrow> int list" where
  "round_robin p c n xs = fold (\<lambda>i ps. add_at ps (i mod p) c) [0..<n] xs"

text \<open>The array \<^verbatim>\<open>partSizes\<close> when the second loop starts.\<close>

definition final_sizes :: "int \<Rightarrow> int \<Rightarrow> int \<Rightarrow> int list" where
  "final_sizes totalSize partCount chunkSize =
     (let rr = round_robin (nat partCount) chunkSize (nat (totalSize div chunkSize))
                 (replicate (nat partCount) 0)
      in if totalSize mod chunkSize > 0
         then add_at rr (nat (min (totalSize div chunkSize) (partCount - 1))) (totalSize mod chunkSize)
         else rr)"

section \<open>Options, requests and the collaborators of the upload paths\<close>

text \<open>
  The merged options \<^verbatim>\<open>opts\<close> of one call (defaults, then the client's options, then
  the call's), with the fields the upload paths read. An option that may be
  \<^verbatim>\<open>undefined\<close> or \<^verbatim>\<open>null\<close> is an \<open>option\<close>; a string option that is only tested
  for truthiness is a \<open>string\<close>, empty when it is not set. The numeric options are
  rationals: validation has to reject the non-integral ones.
\<close>

type_synonym stream = "nat list"

record upload_options =
  portalUrl :: string
  endpointPath :: string
  endpointLargeUpload :: string
  portalFileFieldname :: string
  customFilename :: string
  customUserAgent :: string
  customCookie :: string
  APIKey :: string
  dryRun :: bool
  largeFileSize :: int
  chunkSizeMultiplier :: rat
  numParallelUploads :: rat
  staggerPercent :: "rat option"
  retryDelays :: "int list"

record form_data =
  form_field :: string
  form_stream :: stream
  form_filename :: string

text \<open>
  The argument of \<^verbatim>\<open>executeRequest\<close>: the options spread into it, and the fields the
  upload paths set beside them.
\<close>

record request =
  req_opts :: upload_options
  req_url :: "string option"
  req_endpointPath :: string
  req_method :: string
  req_headers :: "string \<rightharpoonup> string"
  req_data :: "form_data option"
  req_dryrun :: bool

text \<open>What \<^verbatim>\<open>executeRequest\<close> hands to the HTTP library.\<close>

record axios_config =
  ax_url :: string
  ax_method :: string
  ax_data :: "form_data option"
  ax_dryrun :: bool
  ax_headers :: "string \<rightharpoonup> string"
  ax_password :: "string option"

text \<open>
  A response: the \<^verbatim>\<open>skylink\<close> field of the body (\<^verbatim>\<open>response.data.skylink\<close>) and the
  response headers; a field or header that is absent reads as \<^verbatim>\<open>undefined\<close>, here
  \<open>None\<close>.
\<close>

record response =
  resp_data_skylink :: "string option"
  resp_headers :: "string \<rightharpoonup> string"

text \<open>The options \<^verbatim>\<open>uploadLargeFile\<close> hands to the transfer engine (lines 121-133).\<close>

record tus_options =
  tus_endpoint :: string
  tus_chunkSize :: int
  tus_retryDelays :: "int list"
  tus_filename :: string
  tus_filetype :: string
  tus_parallelUploads :: int
  tus_staggerPercent :: "rat option"
  tus_splitSizeIntoParts :: "(int \<Rightarrow> int \<Rightarrow> error + part list) option"
  tus_headers :: "string \<rightharpoonup> string"

text \<open>
  How the transfer engine ends: it calls \<^verbatim>\<open>onError\<close> with an error (the body of
  \<^verbatim>\<open>error.originalResponse\<close> when there is one, and the error's message), or it calls
  \<^verbatim>\<open>onSuccess\<close>, with \<^verbatim>\<open>upload.url\<close> set or not.
\<close>

datatype tus_result =
    TusError "string option" string
  | TusSuccess "string option"

text \<open>
  The collaborators that are not among the sources: the constants and helpers imported
  from \<^verbatim>\<open>utils.js\<close> and \<^verbatim>\<open>defaults.js\<close> (\<^verbatim>\<open>uriSkynetPrefix\<close>, \<^verbatim>\<open>TUS_CHUNK_SIZE\<close>,
  \<^verbatim>\<open>makeUrl\<close>, \<^verbatim>\<open>getFileMimeType\<close>), the headers of a multipart form, the HTTP library,
  the transfer engine and the file system. Every definition below takes them as one
  parameter, so a theorem holds for every portal, engine and file system.
\<close>

record env =
  uriSkynetPrefix :: string
  TUS_CHUNK_SIZE :: int
  makeUrl :: "string list \<Rightarrow> string"
  getFileMimeType :: "string \<Rightarrow> string"
  formHeaders :: "string \<rightharpoonup> string"
  axios :: "axios_config \<Rightarrow> error + response"
  tusUpload :: "stream \<Rightarrow> tus_options \<Rightarrow> tus_result"
  fs_stat :: "string \<Rightarrow> error + int"
  basename :: "string \<Rightarrow> string"
  createReadStream :: "string \<Rightarrow> stream"

text \<open>
  The promise an upload returns: resolved with a value, rejected with an error, or never
  settled. Beside it every operation returns the trace of what it did to the outside, in
  order: starting the transfer engine and issuing an HTTP request.
\<close>

datatype 'a promise = Resolved 'a | Rejected error | Unsettled

datatype event = UploadStarted | HttpRequest axios_config

text \<open>
  A template literal \<^verbatim>\<open>`${v}`\<close> renders \<^verbatim>\<open>undefined\<close> as the text \<^verbatim>\<open>undefined\<close>.
\<close>

definition js_template :: "string option \<Rightarrow> string" where
  "js_template v = (case v of None \<Rightarrow> ''undefined'' | Some s \<Rightarrow> s)"

text \<open>
  \<^verbatim>\<open>String.prototype.trim\<close> strips the white space and the line terminators of the
  language. A character of a \<open>string\<close> is a code unit below 256; of those, the white
  space is the space, the characters 9 to 13 and the no-break space \<open>0xA0\<close>.
\<close>

definition js_whitespace :: "char \<Rightarrow> bool" where
  "js_whitespace c =
     (c \<in> set [CHR '' '', CHR 0x09, CHR 0x0A, CHR 0x0B, CHR 0x0C, CHR 0x0D, CHR 0xA0])"

definition trim :: "string \<Rightarrow> string" where
  "trim s = rev (dropWhile js_whitespace (rev (dropWhile js_whitespace s)))"

subsection \<open>client.js: \<^verbatim>\<open>buildRequestHeaders\<close> (lines 117-127) and \<^verbatim>\<open>executeRequest\<close> (lines 79-106)\<close>

definition buildRequestHeaders ::
  "(string \<rightharpoonup> string) \<Rightarrow> string \<Rightarrow> string \<Rightarrow> (string \<rightharpoonup> string)" where
  "buildRequestHeaders baseHeaders customUserAgent' customCookie' =
     (let returnHeaders = baseHeaders;
          returnHeaders = (if customUserAgent' \<noteq> []
                           then returnHeaders(''User-Agent'' \<mapsto> customUserAgent')
                           else returnHeaders);
          returnHeaders = (if customCookie' \<noteq> []
                           then returnHeaders(''Cookie'' \<mapsto> customCookie')
                           else returnHeaders)
      in returnHeaders)"

text \<open>
  \<^verbatim>\<open>executeRequest\<close> takes \<^verbatim>\<open>config.url\<close> when it is set and builds the URL from the
  portal and the endpoint otherwise (the upload paths set no \<^verbatim>\<open>extraPath\<close>), builds the
  headers, and calls the HTTP library once. The response type and the progress callback
  are not modelled.
\<close>

definition executeRequest :: "env \<Rightarrow> request \<Rightarrow> (error + response) \<times> event list" where
  "executeRequest e config =
     (let opts = req_opts config;
          url = (case req_url config of
                   Some u \<Rightarrow> if u \<noteq> [] then u
                             else makeUrl e [portalUrl opts, req_endpointPath config, []]
                 | None \<Rightarrow> makeUrl e [portalUrl opts, req_endpointPath config, []]);
          headers = buildRequestHeaders (req_headers config) (customUserAgent opts) (customCookie opts);
          call = \<lparr>ax_url = url, ax_method = req_method config, ax_data = req_data config,
                  ax_dryrun = req_dryrun config, ax_headers = headers,
                  ax_password = (if APIKey opts \<noteq> [] then Some (APIKey opts) else None)\<rparr>
      in (axios e call, [HttpRequest call]))"

subsection \<open>The small-file path: \<^verbatim>\<open>uploadSmallFile\<close> (upload.js, lines 47-68)\<close>

text \<open>
  Modelled from the spec: \<^verbatim>\<open>formatSkylink\<close> is imported from \<^verbatim>\<open>utils.js\<close>, which is not
  among the sources. By the specification (section 4.4) \<open>format\<close> strips any recognized
  URI-scheme prefix from its input, yielding the bare form, and is idempotent; the
  recognized prefix is \<^verbatim>\<open>uriSkynetPrefix\<close>. Stripping is repeated, which makes the
  function idempotent on every input.
\<close>

function formatSkylink :: "string \<Rightarrow> string \<Rightarrow> string" where
  "formatSkylink pfx skylink =
     (if pfx \<noteq> [] \<and> take (length pfx) skylink = pfx
      then formatSkylink pfx (drop (length pfx) skylink)
      else skylink)"
  by pat_completeness auto
termination
proof (relation "measure (\<lambda>(pfx, skylink). length skylink)")
  show "wf (measure (\<lambda>(pfx, skylink). length skylink))"
    by simp
next
  fix pfx skylink :: string
  assume a: "pfx \<noteq> [] \<and> take (length pfx) skylink = pfx"
  then have "length (take (length pfx) skylink) = length pfx"
    by simp
  then have "length pfx \<le> length skylink"
    by simp
  with a show "((pfx, drop (length pfx) skylink), (pfx, skylink))
                 \<in> measure (\<lambda>(pfx, skylink). length skylink)"
    by (cases pfx) auto
qed

declare formatSkylink.simps [simp del]

text \<open>
  The response's \<^verbatim>\<open>skylink\<close> field goes through \<^verbatim>\<open>formatSkylink\<close> and is returned as it
  comes back. The specification defines \<open>format\<close> on strings only; on a field that is
  absent the model raises, as a string operation on \<^verbatim>\<open>undefined\<close> does.
\<close>

definition uploadSmallFile ::
  "env \<Rightarrow> stream \<Rightarrow> string \<Rightarrow> upload_options \<Rightarrow> string promise \<times> event list" where
  "uploadSmallFile e stream filename opts =
     (let formData = \<lparr>form_field = portalFileFieldname opts, form_stream = stream,
                      form_filename = filename\<rparr>;
          headers = formHeaders e;
          config = \<lparr>req_opts = opts, req_url = None, req_endpointPath = endpointPath opts,
                    req_method = ''post'', req_headers = headers, req_data = Some formData,
                    req_dryrun = dryRun opts\<rparr>
      in case executeRequest e config of
           (Inl err, tr) \<Rightarrow> (Rejected err, tr)
         | (Inr response, tr) \<Rightarrow>
             (case resp_data_skylink response of
                None \<Rightarrow> (Rejected (RuntimeError ''TypeError''), tr)
              | Some responsedSkylink \<Rightarrow>
                  (Resolved (formatSkylink (uriSkynetPrefix e) responsedSkylink), tr)))"

subsection \<open>The large-file path: \<^verbatim>\<open>uploadLargeFile\<close> (upload.js, lines 70-162)\<close>

text \<open>
  Modelled from the spec: \<^verbatim>\<open>validateInteger\<close> is imported from
  \<^verbatim>\<open>utils_validation.js\<close>, which is not among the sources. By the specification
  (section 4.3) an option that is not integral fails with \<open>InvalidArgument\<close>.
\<close>

definition validateInteger :: "string \<Rightarrow> rat \<Rightarrow> error + unit" where
  "validateInteger name v =
     (if rat_of_int \<lfloor>v\<rfloor> = v then Inr () else throwValidationError name)"

text \<open>The validation, lines 72-87, in the order of the source.\<close>

definition uploadLargeFile_validation :: "upload_options \<Rightarrow> error + unit" where
  "uploadLargeFile_validation opts =
     (if (case staggerPercent opts of None \<Rightarrow> False | Some s \<Rightarrow> s < 0 \<or> s > 100)
      then Inl (InvalidArgument ''staggerPercent'')
      else if chunkSizeMultiplier opts < 1
      then throwValidationError ''opts.chunkSizeMultiplier''
      else
        case validateInteger ''opts.chunkSizeMultiplier'' (chunkSizeMultiplier opts) of
          Inl err \<Rightarrow> Inl err
        | Inr _ \<Rightarrow>
            if numParallelUploads opts < 1
            then throwValidationError ''opts.numParallelUploads''
            else validateInteger ''opts.numParallelUploads'' (numParallelUploads opts))"

text \<open>
  Lines 89-133: the options for the transfer engine. The two numeric options have passed
  validation when this runs, so they are integers and \<open>\<lfloor>_\<rfloor>\<close> reads them exactly.
  \<^verbatim>\<open>TUS_CHUNK_SIZE\<close> is a positive constant.
\<close>

definition uploadLargeFile_tusOpts ::
  "env \<Rightarrow> string \<Rightarrow> int \<Rightarrow> upload_options \<Rightarrow> tus_options" where
  "uploadLargeFile_tusOpts e filename filesize opts =
     (let url = makeUrl e [portalUrl opts, endpointLargeUpload opts];
          headers = buildRequestHeaders Map.empty (customUserAgent opts) (customCookie opts);
          parallelUploads = \<lfloor>numParallelUploads opts\<rfloor>;
          chunkSize = TUS_CHUNK_SIZE e * \<lfloor>chunkSizeMultiplier opts\<rfloor>;
          numChunks = \<lceil>rat_of_int filesize / rat_of_int (TUS_CHUNK_SIZE e)\<rceil>;
          parallelUploads = (if parallelUploads > numChunks then numChunks else parallelUploads)
      in \<lparr>tus_endpoint = url,
          tus_chunkSize = chunkSize,
          tus_retryDelays = retryDelays opts,
          tus_filename = filename,
          tus_filetype = getFileMimeType e filename,
          tus_parallelUploads = parallelUploads,
          tus_staggerPercent = (if parallelUploads > 1 then staggerPercent opts else None),
          tus_splitSizeIntoParts =
            (if parallelUploads > 1
             then Some (\<lambda>totalSize partCount.
                          splitSizeIntoChunkAlignedParts totalSize partCount chunkSize)
             else None),
          tus_headers = headers\<rparr>)"

text \<open>
  The partition plan of an upload: the transfer engine calls the function it was given,
  when it was given one, on the size of the upload and the number of parallel uploads.
\<close>

definition partitionPlan :: "tus_options \<Rightarrow> int \<Rightarrow> (error + part list) option" where
  "partitionPlan t filesize =
     (case tus_splitSizeIntoParts t of
        None \<Rightarrow> None
      | Some splitSizeIntoParts \<Rightarrow> Some (splitSizeIntoParts filesize (tus_parallelUploads t)))"

text \<open>
  \<^verbatim>\<open>onSuccess\<close>, lines 140-156. \<^verbatim>\<open>!upload.url\<close> holds for a URL that is not set and for the
  empty string. When the probe itself fails, the error is raised inside the engine's
  callback and nothing settles the promise.
\<close>

definition uploadLargeFile_onSuccess ::
  "env \<Rightarrow> upload_options \<Rightarrow> (string \<rightharpoonup> string) \<Rightarrow> string option
     \<Rightarrow> string promise \<times> event list" where
  "uploadLargeFile_onSuccess e opts headers upload_url =
     (case upload_url of
        None \<Rightarrow> (Rejected UploadIncomplete, [])
      | Some u \<Rightarrow>
          if u = [] then (Rejected UploadIncomplete, [])
          else
            case executeRequest e
                   \<lparr>req_opts = opts, req_url = Some u,
                    req_endpointPath = endpointLargeUpload opts, req_method = ''head'',
                    req_headers = headers(''Tus-Resumable'' \<mapsto> ''1.0.0''),
                    req_data = None, req_dryrun = False\<rparr> of
              (Inl err, tr) \<Rightarrow> (Unsettled, tr)
            | (Inr resp, tr) \<Rightarrow>
                (let skylink = resp_headers resp ''skynet-skylink''
                 in (Resolved (uriSkynetPrefix e @ js_template skylink), tr)))"

definition uploadLargeFile ::
  "env \<Rightarrow> stream \<Rightarrow> string \<Rightarrow> int \<Rightarrow> upload_options \<Rightarrow> string promise \<times> event list" where
  "uploadLargeFile e stream filename filesize opts =
     (case uploadLargeFile_validation opts of
        Inl err \<Rightarrow> (Rejected err, [])
      | Inr _ \<Rightarrow>
          (let tusOpts = uploadLargeFile_tusOpts e filename filesize opts
           in case tusUpload e stream tusOpts of
                TusError res msg \<Rightarrow>
                  (Rejected (TransportError (case res of Some body \<Rightarrow> trim body | None \<Rightarrow> msg)),
                   [UploadStarted])
              | TusSuccess upload_url \<Rightarrow>
                  (case uploadLargeFile_onSuccess e opts (tus_headers tusOpts) upload_url of
                     (result, tr) \<Rightarrow> (result, UploadStarted # tr))))"

subsection \<open>Strategy selection: \<^verbatim>\<open>uploadData\<close> (lines 22-31) and \<^verbatim>\<open>uploadFile\<close> (lines 33-45)\<close>

definition uploadData ::
  "env \<Rightarrow> stream \<Rightarrow> string \<Rightarrow> upload_options \<Rightarrow> string promise \<times> event list" where
  "uploadData e data filename opts =
     (let sizeInBytes = int (length data)
      in if sizeInBytes < largeFileSize opts
         then uploadSmallFile e data filename opts
         else uploadLargeFile e data filename sizeInBytes opts)"

definition uploadFile ::
  "env \<Rightarrow> string \<Rightarrow> upload_options \<Rightarrow> string promise \<times> event list" where
  "uploadFile e path opts =
     (case fs_stat e path of
        Inl err \<Rightarrow> (Rejected err, [])
      | Inr sizeInBytes \<Rightarrow>
          (let filename = (if customFilename opts \<noteq> [] then customFilename opts
                           else basename e path);
               stream = createReadStream e path
           in if sizeInBytes < largeFileSize opts
              then uploadSmallFile e stream filename opts
              else uploadLargeFile e stream filename sizeInBytes opts))"

text \<open>An upload took the small-file path when it posted a multipart form.\<close>

definition posts_form :: "event list \<Rightarrow> bool" where
  "posts_form tr =
     list_ex (\<lambda>ev. case ev of HttpRequest call \<Rightarrow> ax_method call = ''post'' | _ \<Rightarrow> False) tr"

section \<open>The skylink codec: \<^verbatim>\<open>decodeSkylinkBase64\<close> (defaults.js, lines 72-82)\<close>

definition BASE64_ENCODED_SKYLINK_SIZE :: nat where
  "BASE64_ENCODED_SKYLINK_SIZE = 46"

definition RAW_SKYLINK_SIZE :: nat where
  "RAW_SKYLINK_SIZE = 34"

text \<open>\<^verbatim>\<open>s.replace(/a/g, "b")\<close> for single characters.\<close>

definition replace_char :: "char \<Rightarrow> char \<Rightarrow> string \<Rightarrow> string" where
  "replace_char a b s = map (\<lambda>c. if c = a then b else c) s"

text \<open>
  The decoder \<^verbatim>\<open>toByteArray\<close> comes from the package \<^verbatim>\<open>base64-js\<close>, outside the
  repository: it is a parameter, and an error it raises passes through.
\<close>

definition decodeSkylinkBase64 ::
  "(string \<Rightarrow> error + nat list) \<Rightarrow> string \<Rightarrow> error + nat list" where
  "decodeSkylinkBase64 toByteArray skylink =
     (if length skylink \<noteq> BASE64_ENCODED_SKYLINK_SIZE then Inl MalformedSkylink
      else
        let skylink = skylink @ ''=='';
            skylink = replace_char (CHR ''_'') (CHR ''/'') (replace_char (CHR ''-'') (CHR ''+'') skylink)
        in toByteArray skylink)"

subsection \<open>The decoder of \<^verbatim>\<open>base64-js\<close>\<close>

text \<open>
  \<^verbatim>\<open>toByteArray\<close> of the package \<^verbatim>\<open>base64-js\<close>, version 1.5.1 (\<^verbatim>\<open>index.js\<close>: \<^verbatim>\<open>getLens\<close>,
  \<^verbatim>\<open>_byteLength\<close>, \<^verbatim>\<open>toByteArray\<close>), the decoder that \<^verbatim>\<open>defaults.js\<close> imports. It is
  used only to instantiate the parameter of \<open>decodeSkylinkBase64\<close> at concrete inputs.

  \<^verbatim>\<open>revLookup\<close> maps the 64 characters of the alphabet, and \<^verbatim>\<open>-\<close> and \<^verbatim>\<open>_\<close>, to their
  values; any other character, and a position past the end of the string, reads as
  \<^verbatim>\<open>undefined\<close>, which the bitwise operators take as 0.
\<close>

definition b64_code :: string where
  "b64_code = ''ABCDEFGHIJKLMNOPQRSTUVWXYZabcdefghijklmnopqrstuvwxyz0123456789+/''"

fun index_of :: "char \<Rightarrow> string \<Rightarrow> nat option" where
  "index_of c [] = None"
| "index_of c (x # xs) = (if x = c then Some 0 else map_option Suc (index_of c xs))"

definition revLookup :: "char \<Rightarrow> nat" where
  "revLookup c =
     (if c = CHR ''-'' then 62
      else if c = CHR ''_'' then 63
      else case index_of c b64_code of Some i \<Rightarrow> i | None \<Rightarrow> 0)"

definition b64_at :: "string \<Rightarrow> nat \<Rightarrow> nat" where
  "b64_at b64 i = (if i < length b64 then revLookup (b64 ! i) else 0)"

definition getLens :: "string \<Rightarrow> error + nat \<times> nat" where
  "getLens b64 =
     (let len = length b64
      in if len mod 4 > 0
         then Inl (RuntimeError ''Invalid string. Length must be a multiple of 4'')
         else
           let validLen = (case index_of (CHR ''='') b64 of None \<Rightarrow> len | Some i \<Rightarrow> i);
               placeHoldersLen = (if validLen = len then 0 else 4 - validLen mod 4)
           in Inr (validLen, placeHoldersLen))"

definition b64_byteLength :: "nat \<Rightarrow> nat \<Rightarrow> int" where
  "b64_byteLength validLen placeHoldersLen =
     (int validLen + int placeHoldersLen) * 3 div 4 - int placeHoldersLen"

text \<open>One round of the loop: four characters at \<open>i\<close> give three bytes.\<close>

definition quad_bytes :: "string \<Rightarrow> nat \<Rightarrow> nat list" where
  "quad_bytes b64 i =
     (let tmp = push_bit 18 (b64_at b64 i) OR push_bit 12 (b64_at b64 (i + 1))
                OR push_bit 6 (b64_at b64 (i + 2)) OR b64_at b64 (i + 3)
      in [drop_bit 16 tmp AND 0xFF, drop_bit 8 tmp AND 0xFF, tmp AND 0xFF])"

text \<open>
  The result is a \<^verbatim>\<open>Uint8Array\<close> of the computed length, zero-filled, into which the
  bytes are written in order (a write past the end is ignored); a negative length raises
  \<^verbatim>\<open>RangeError\<close>.
\<close>

definition uint8_array :: "nat \<Rightarrow> nat list \<Rightarrow> nat list" where
  "uint8_array n written = take n (written @ replicate n 0)"

definition base64js_toByteArray :: "string \<Rightarrow> error + nat list" where
  "base64js_toByteArray b64 =
     (case getLens b64 of
        Inl err \<Rightarrow> Inl err
      | Inr (validLen, placeHoldersLen) \<Rightarrow>
          let n = b64_byteLength validLen placeHoldersLen
          in if n < 0 then Inl (RuntimeError ''RangeError'')
             else
               let len = (if placeHoldersLen > 0 then int validLen - 4 else int validLen);
                   rounds = nat ((len + 3) div 4);
                   whole = concat (map (\<lambda>k. quad_bytes b64 (4 * k)) [0..<rounds]);
                   i = 4 * rounds;
                   two = (if placeHoldersLen = 2
                          then [(push_bit 2 (b64_at b64 i) OR drop_bit 4 (b64_at b64 (i + 1))) AND 0xFF]
                          else []);
                   one = (if placeHoldersLen = 1
                          then let tmp = push_bit 10 (b64_at b64 i) OR push_bit 4 (b64_at b64 (i + 1))
                                         OR drop_bit 2 (b64_at b64 (i + 2))
                               in [drop_bit 8 tmp AND 0xFF, tmp AND 0xFF]
                          else [])
               in Inr (uint8_array (nat n) (whole @ two @ one)))"

section \<open>A concrete portal and concrete options\<close>

text \<open>
  The inputs at which the theorems below are instantiated. The portal answers every
  request with the given skylink, in the body and in the \<^verbatim>\<open>skynet-skylink\<close> header, or
  with neither; its transfer engine completes every upload at one location. The chunk
  size is 40 MiB. The options are valid, with a threshold of 32 MiB.
\<close>

definition example_portal :: "string option \<Rightarrow> env" where
  "example_portal skylink =
     \<lparr>uriSkynetPrefix = ''sia://'',
      TUS_CHUNK_SIZE = 41943040,
      makeUrl = concat,
      getFileMimeType = (\<lambda>filename. ''application/octet-stream''),
      formHeaders = [''content-type'' \<mapsto> ''multipart/form-data''],
      axios = (\<lambda>call. Inr \<lparr>resp_data_skylink = skylink,
                             resp_headers = (case skylink of
                                               None \<Rightarrow> Map.empty
                                             | Some s \<Rightarrow> [''skynet-skylink'' \<mapsto> s])\<rparr>),
      tusUpload = (\<lambda>stream tusOpts. TusSuccess (Some ''https://siasky.net/skynet/tus/1'')),
      fs_stat = (\<lambda>path. Inr 3),
      basename = (\<lambda>path. path),
      createReadStream = (\<lambda>path. [1, 2, 3])\<rparr>"

definition example_options :: upload_options where
  "example_options =
     \<lparr>portalUrl = ''https://siasky.net'',
      endpointPath = ''/skynet/skyfile'',
      endpointLargeUpload = ''/skynet/tus'',
      portalFileFieldname = ''file'',
      customFilename = [],
      customUserAgent = [],
      customCookie = [],
      APIKey = [],
      dryRun = False,
      largeFileSize = 33554432,
      chunkSizeMultiplier = 1,
      numParallelUploads = 2,
      staggerPercent = None,
      retryDelays = [0, 5000, 15000]\<rparr>"

definition example_skylink :: string where
  "example_skylink = ''XABvi7JtJbQSMAcDwnUnmp2FKDPjg8_tTTFP4BwMSxVdEg''"

section \<open>Properties of the chunk partitioner\<close>

subsection \<open>Arithmetic and array updates\<close>

lemma js_rem_nonneg: "0 \<le> a \<Longrightarrow> 0 < b \<Longrightarrow> js_rem a b = a mod b"
  by (cases "a = 0") (simp_all add: js_rem_def)

lemma js_rem_index: "1 \<le> partCount \<Longrightarrow> nat (js_rem (int i) partCount) = i mod nat partCount"
  by (simp add: js_rem_nonneg nat_mod_distrib)

lemma length_add_at [simp]: "length (add_at xs k v) = length xs"
  by (simp add: add_at_def)

lemma sum_list_add_at: "k < length xs \<Longrightarrow> sum_list (add_at xs k v) = sum_list xs + v"
  unfolding add_at_def
proof (induction xs arbitrary: k)
  case Nil
  then show ?case by simp
next
  case (Cons x xs)
  then show ?case by (cases k) simp_all
qed

lemma nth_add_at: "j < length xs \<Longrightarrow> add_at xs k v ! j = (if j = k then xs ! j + v else xs ! j)"
  by (simp add: add_at_def)

lemma round_robin_Suc: "round_robin p c (Suc n) xs = add_at (round_robin p c n xs) (n mod p) c"
  by (simp add: round_robin_def)

lemma length_round_robin [simp]: "length (round_robin p c n xs) = length xs"
  by (induction n) (simp_all add: round_robin_Suc, simp add: round_robin_def)

lemma sum_list_round_robin:
  "0 < length xs \<Longrightarrow> sum_list (round_robin (length xs) c n xs) = sum_list xs + c * int n"
proof (induction n)
  case 0
  then show ?case by (simp add: round_robin_def)
next
  case (Suc n)
  then show ?case by (simp add: round_robin_Suc sum_list_add_at algebra_simps)
qed

lemma nth_round_robin:
  "j < length xs \<Longrightarrow>
   round_robin (length xs) c n xs ! j =
     xs ! j + c * int (length (filter (\<lambda>i. i mod length xs = j) [0..<n]))"
proof (induction n)
  case 0
  then show ?case by (simp add: round_robin_def)
next
  case (Suc n)
  then show ?case by (auto simp add: round_robin_Suc nth_add_at algebra_simps)
qed

lemma assign_chunks_round_robin:
  "1 \<le> partCount \<Longrightarrow>
   assign_chunks numFullChunks partCount chunkSize xs =
     round_robin (nat partCount) chunkSize (nat numFullChunks) xs"
  by (simp add: assign_chunks_def round_robin_def js_rem_index)


lemma boundary_loop:
  "n \<le> length sizes \<Longrightarrow>
   fold (\<lambda>i (parts, lastBoundary).
           (parts @ [\<lparr>start = lastBoundary, finish = lastBoundary + sizes ! i\<rparr>],
            lastBoundary + sizes ! i))
     [0..<n] ([], 0)
   = (map (\<lambda>j. \<lparr>start = sum_list (take j sizes), finish = sum_list (take j sizes) + sizes ! j\<rparr>) [0..<n],
      sum_list (take n sizes))"
proof (induction n)
  case 0
  then show ?case by simp
next
  case (Suc n)
  then have "n < length sizes" by simp
  then have "take (Suc n) sizes = take n sizes @ [sizes ! n]"
    by (simp add: take_Suc_conv_app_nth)
  with Suc show ?case by simp
qed

lemma sizes_to_parts_ranges:
  "0 \<le> partCount \<Longrightarrow> nat partCount = length sizes \<Longrightarrow> sizes_to_parts partCount sizes = spec_ranges sizes"
  by (simp add: sizes_to_parts_def spec_ranges_def boundary_loop)

lemma length_spec_ranges [simp]: "length (spec_ranges sizes) = length sizes"
  by (simp add: spec_ranges_def)

lemma nth_spec_ranges:
  "j < length sizes \<Longrightarrow>
   spec_ranges sizes ! j = \<lparr>start = sum_list (take j sizes), finish = sum_list (take (Suc j) sizes)\<rparr>"
  by (simp add: spec_ranges_def take_Suc_conv_app_nth)

lemma map_part_length_spec_ranges: "map part_length (spec_ranges sizes) = sizes"
  by (rule nth_equalityI) (simp_all add: spec_ranges_def part_length_def)


lemma length_final_sizes [simp]: "length (final_sizes totalSize partCount chunkSize) = nat partCount"
  by (simp add: final_sizes_def Let_def)

lemma split_final_sizes:
  assumes "1 \<le> partCount" "1 \<le> chunkSize" "chunkSize < totalSize"
    and "partCount < 2 ^ 32"
  shows "splitSizeIntoChunkAlignedParts totalSize partCount chunkSize =
           Inr (spec_ranges (final_sizes totalSize partCount chunkSize))"
proof -
  have r: "js_rem totalSize chunkSize = totalSize mod chunkSize"
    using assms by (simp add: js_rem_nonneg)
  show ?thesis
    using assms
    by (simp add: splitSizeIntoChunkAlignedParts_def Let_def r
        js_floor_div_def assign_chunks_round_robin final_sizes_def sizes_to_parts_ranges)
qed

lemma split_array_limit:
  "1 \<le> chunkSize \<Longrightarrow> chunkSize < totalSize \<Longrightarrow> 2 ^ 32 \<le> partCount \<Longrightarrow>
   splitSizeIntoChunkAlignedParts totalSize partCount chunkSize = Inl (RuntimeError ''RangeError'')"
  by (simp add: splitSizeIntoChunkAlignedParts_def throwValidationError_def)

lemma split_success_bound:
  "splitSizeIntoChunkAlignedParts totalSize partCount chunkSize = Inr parts \<Longrightarrow> partCount < 2 ^ 32"
  by (simp add: splitSizeIntoChunkAlignedParts_def throwValidationError_def
      split: if_splits)

lemma leftover_index_in_range:
  assumes "1 \<le> partCount" "1 \<le> chunkSize" "chunkSize < totalSize"
  shows "0 \<le> min (totalSize div chunkSize) (partCount - 1)"
    and "nat (min (totalSize div chunkSize) (partCount - 1)) < nat partCount"
  using assms by (simp_all add: pos_imp_zdiv_nonneg_iff)

lemma chunk_index_in_range:
  "1 \<le> partCount \<Longrightarrow> nat (js_rem (int i) partCount) < nat partCount"
  by (simp add: js_rem_index)

lemma sum_list_final_sizes:
  assumes "1 \<le> partCount" "1 \<le> chunkSize" "chunkSize < totalSize"
  shows "sum_list (final_sizes totalSize partCount chunkSize) = totalSize"
proof -
  let ?rr = "round_robin (nat partCount) chunkSize (nat (totalSize div chunkSize))
               (replicate (nat partCount) 0)"
  have len: "0 < length (replicate (nat partCount) (0::int))"
    using assms by simp
  have "sum_list ?rr = chunkSize * int (nat (totalSize div chunkSize))"
    using sum_list_round_robin [OF len, of chunkSize "nat (totalSize div chunkSize)"]
    by (simp add: sum_list_replicate)
  moreover have "0 \<le> totalSize div chunkSize"
    using assms by (simp add: pos_imp_zdiv_nonneg_iff)
  ultimately have rr: "sum_list ?rr = chunkSize * (totalSize div chunkSize)"
    by simp
  have k: "nat (min (totalSize div chunkSize) (partCount - 1)) < length ?rr"
    using leftover_index_in_range(2) [OF assms] by simp
  have nonneg: "0 \<le> totalSize mod chunkSize"
    using assms by simp
  have split: "chunkSize * (totalSize div chunkSize) + totalSize mod chunkSize = totalSize"
    by simp
  show ?thesis
  proof (cases "0 < totalSize mod chunkSize")
    case True
    then show ?thesis
      using rr split sum_list_add_at [OF k, of "totalSize mod chunkSize"]
      by (simp add: final_sizes_def Let_def)
  next
    case False
    with nonneg have "totalSize mod chunkSize = 0" by simp
    with split have "chunkSize * (totalSize div chunkSize) = totalSize" by simp
    with rr False show ?thesis
      by (simp add: final_sizes_def Let_def)
  qed
qed

lemma nth_final_sizes:
  assumes "1 \<le> partCount" "1 \<le> chunkSize" "chunkSize < totalSize" "j < nat partCount"
  shows "final_sizes totalSize partCount chunkSize ! j =
           chunkSize * int (length (filter (\<lambda>i. i mod nat partCount = j) [0..<nat (totalSize div chunkSize)]))
           + (if totalSize mod chunkSize > 0 \<and> j = nat (min (totalSize div chunkSize) (partCount - 1))
              then totalSize mod chunkSize else 0)"
proof -
  have j: "j < length (replicate (nat partCount) (0::int))"
    using assms by simp
  have rr: "round_robin (nat partCount) chunkSize n (replicate (nat partCount) 0) ! j
          = chunkSize * int (length (filter (\<lambda>i. i mod nat partCount = j) [0..<n]))" for n
    using nth_round_robin [OF j, of chunkSize n] assms(4) by simp
  let ?rr = "round_robin (nat partCount) chunkSize (nat (totalSize div chunkSize))
               (replicate (nat partCount) 0)"
  have jr: "j < length ?rr"
    using assms(4) by simp
  let ?k = "nat (min (totalSize div chunkSize) (partCount - 1))"
  have upd: "add_at ?rr ?k (totalSize mod chunkSize) ! j
           = (if j = ?k then ?rr ! j + totalSize mod chunkSize else ?rr ! j)"
    by (rule nth_add_at [OF jr])
  have fs: "final_sizes totalSize partCount chunkSize ! j
          = (if 0 < totalSize mod chunkSize
             then add_at ?rr ?k (totalSize mod chunkSize) ! j else ?rr ! j)"
    by (simp add: final_sizes_def Let_def)
  show ?thesis
    unfolding fs upd rr by simp
qed

lemma final_sizes_spec:
  assumes "1 \<le> partCount" "1 \<le> chunkSize" "chunkSize < totalSize"
  shows "final_sizes totalSize partCount chunkSize = spec_sizes totalSize partCount chunkSize"
proof (rule nth_equalityI)
  show "length (final_sizes totalSize partCount chunkSize) = length (spec_sizes totalSize partCount chunkSize)"
    by (simp add: spec_sizes_def Let_def)
next
  fix j
  assume "j < length (final_sizes totalSize partCount chunkSize)"
  then have j: "j < nat partCount" by simp
  have m: "(int i mod partCount = int j) = (i mod nat partCount = j)" for i
  proof -
    have "int i mod partCount = int (i mod nat partCount)"
      using assms(1) by (simp add: zmod_int)
    then show ?thesis by simp
  qed
  have k: "(int j = min (totalSize div chunkSize) (partCount - 1))
         = (j = nat (min (totalSize div chunkSize) (partCount - 1)))"
    using leftover_index_in_range(1) [OF assms] by linarith
  show "final_sizes totalSize partCount chunkSize ! j = spec_sizes totalSize partCount chunkSize ! j"
    using j by (simp add: nth_final_sizes [OF assms j] spec_sizes_def Let_def m k)
qed


lemma final_sizes_nonneg:
  assumes "1 \<le> partCount" "1 \<le> chunkSize" "chunkSize < totalSize" "j < nat partCount"
  shows "0 \<le> final_sizes totalSize partCount chunkSize ! j"
  using assms by (simp add: nth_final_sizes [OF assms])

lemma final_sizes_aligned:
  assumes "1 \<le> partCount" "1 \<le> chunkSize" "chunkSize < totalSize" "j < nat partCount"
    and "j \<noteq> nat (min (totalSize div chunkSize) (partCount - 1))"
  shows "chunkSize dvd final_sizes totalSize partCount chunkSize ! j"
  using assms(5) by (simp add: nth_final_sizes [OF assms(1-4)])

lemma at_most_one_exception:
  "\<forall>j<length xs. j \<noteq> k \<longrightarrow> P (xs ! j) \<Longrightarrow> length (filter (\<lambda>x. \<not> P x) xs) \<le> 1"
proof (induction xs arbitrary: k)
  case Nil
  then show ?case by simp
next
  case (Cons x xs)
  show ?case
  proof (cases k)
    case 0
    with Cons.prems have "\<forall>j<length xs. P (xs ! j)" by auto
    then have "filter (\<lambda>x. \<not> P x) xs = []"
      by (auto simp add: filter_empty_conv in_set_conv_nth)
    then show ?thesis by simp
  next
    case (Suc k')
    with Cons.prems have "P x" by auto
    moreover from Suc Cons.prems have "\<forall>j<length xs. j \<noteq> k' \<longrightarrow> P (xs ! j)" by auto
    then have "length (filter (\<lambda>x. \<not> P x) xs) \<le> 1" by (rule Cons.IH)
    ultimately show ?thesis by simp
  qed
qed

subsection \<open>The partition invariants\<close>

text \<open>
  Claim C1. For every \<open>totalSize \<ge> 1\<close>, \<open>partCount \<ge> 1\<close> and \<open>chunkSize \<ge> 1\<close> with
  \<open>totalSize > chunkSize\<close>, in the range of exact arithmetic (\<open>totalSize < 2 ^ 53\<close>) and
  of arrays (\<open>partCount < 2 ^ 32\<close>), \<^verbatim>\<open>splitSizeIntoChunkAlignedParts\<close> returns a partition: it
  has exactly \<open>partCount\<close> parts, the first part starts at 0, each part ends where the
  next one starts, no part ends before it starts, the lengths of the parts sum to
  \<open>totalSize\<close>, and the last part ends at \<open>totalSize\<close>.
\<close>

theorem split_is_partition:
  assumes "1 \<le> totalSize" "1 \<le> partCount" "1 \<le> chunkSize" "chunkSize < totalSize"
    and "totalSize < 2 ^ 53" "partCount < 2 ^ 32"
  shows "\<exists>parts. splitSizeIntoChunkAlignedParts totalSize partCount chunkSize = Inr parts
           \<and> int (length parts) = partCount
           \<and> start (parts ! 0) = 0
           \<and> (\<forall>i. Suc i < length parts \<longrightarrow> finish (parts ! i) = start (parts ! Suc i))
           \<and> (\<forall>i<length parts. start (parts ! i) \<le> finish (parts ! i))
           \<and> sum_list (map part_length parts) = totalSize
           \<and> finish (last parts) = totalSize"
proof -
  let ?sizes = "final_sizes totalSize partCount chunkSize"
  let ?parts = "spec_ranges ?sizes"
  note g = assms(2-4)
  have len: "length ?sizes = nat partCount" by simp
  have pos: "0 < length ?sizes" using assms(2) by simp
  have 1: "splitSizeIntoChunkAlignedParts totalSize partCount chunkSize = Inr ?parts"
    by (rule split_final_sizes [OF g assms(6)])
  have 2: "int (length ?parts) = partCount"
    using assms(2) by simp
  have 3: "start (?parts ! 0) = 0"
    using pos by (simp add: nth_spec_ranges)
  have 4: "\<forall>i. Suc i < length ?parts \<longrightarrow> finish (?parts ! i) = start (?parts ! Suc i)"
    by (simp add: nth_spec_ranges)
  have 5: "\<forall>i<length ?parts. start (?parts ! i) \<le> finish (?parts ! i)"
  proof (intro allI impI)
    fix i assume "i < length ?parts"
    then have i: "i < nat partCount" by simp
    then have "i < length ?sizes" by simp
    then have "take (Suc i) ?sizes = take i ?sizes @ [?sizes ! i]"
      by (rule take_Suc_conv_app_nth)
    then have "finish (?parts ! i) = start (?parts ! i) + ?sizes ! i"
      using i by (simp add: nth_spec_ranges)
    with final_sizes_nonneg [OF g i] show "start (?parts ! i) \<le> finish (?parts ! i)"
      by simp
  qed
  have 6: "sum_list (map part_length ?parts) = totalSize"
    by (simp only: map_part_length_spec_ranges sum_list_final_sizes [OF g])
  have "?parts \<noteq> []" using pos by (simp add: spec_ranges_def)
  then have "last ?parts = ?parts ! (length ?sizes - 1)"
    by (simp add: last_conv_nth)
  then have 7: "finish (last ?parts) = totalSize"
    using pos sum_list_final_sizes [OF g] by (simp add: nth_spec_ranges del: length_final_sizes)
  from 1 2 3 4 5 6 7 show ?thesis by blast
qed

theorem split_is_partition_witness:
  "(1::int) \<le> 150 \<and> (1::int) \<le> 2 \<and> (1::int) \<le> 100 \<and> (100::int) < 150
   \<and> (150::int) < 2 ^ 53 \<and> (2::int) < 2 ^ 32
   \<and> (\<exists>parts. splitSizeIntoChunkAlignedParts 150 2 100 = Inr parts
          \<and> int (length parts) = 2
          \<and> start (parts ! 0) = 0
          \<and> (\<forall>i. Suc i < length parts \<longrightarrow> finish (parts ! i) = start (parts ! Suc i))
          \<and> (\<forall>i<length parts. start (parts ! i) \<le> finish (parts ! i))
          \<and> sum_list (map part_length parts) = 150
          \<and> finish (last parts) = 150)"
  using split_is_partition [of 150 2 100] by simp

text \<open>
  Claim C2. For every \<open>totalSize > chunkSize \<ge> 1\<close> and \<open>partCount \<ge> 1\<close>, in the range of
  exact arithmetic (\<open>totalSize < 2 ^ 53\<close>), on which
  \<^verbatim>\<open>splitSizeIntoChunkAlignedParts\<close> succeeds, at most one part of the result has a length
  that is not an exact multiple of \<open>chunkSize\<close>, and the length of every other part is
  an exact multiple of \<open>chunkSize\<close>.
\<close>

theorem split_at_most_one_unaligned:
  assumes "1 \<le> chunkSize" "chunkSize < totalSize" "1 \<le> partCount"
    and "splitSizeIntoChunkAlignedParts totalSize partCount chunkSize = Inr parts"
    and "totalSize < 2 ^ 53"
  shows "length (filter (\<lambda>p. \<not> chunkSize dvd part_length p) parts) \<le> 1
         \<and> (\<exists>k<length parts. \<forall>j<length parts. j \<noteq> k \<longrightarrow> chunkSize dvd part_length (parts ! j))"
proof -
  let ?sizes = "final_sizes totalSize partCount chunkSize"
  let ?k = "nat (min (totalSize div chunkSize) (partCount - 1))"
  note g = assms(3) assms(1) assms(2)
  have bound: "partCount < 2 ^ 32"
    using assms(4) by (rule split_success_bound)
  have parts: "parts = spec_ranges ?sizes"
    using assms(4) split_final_sizes [OF g bound] by simp
  have lens: "map part_length parts = ?sizes"
    unfolding parts by (rule map_part_length_spec_ranges)
  have len: "length parts = nat partCount"
    unfolding parts by simp
  have aligned: "\<forall>j<length ?sizes. j \<noteq> ?k \<longrightarrow> chunkSize dvd ?sizes ! j"
    using final_sizes_aligned [OF g] by simp
  have "length (filter (\<lambda>x. \<not> chunkSize dvd x) ?sizes) \<le> 1"
    using aligned by (rule at_most_one_exception)
  then have "length (filter (\<lambda>x. \<not> chunkSize dvd x) (map part_length parts)) \<le> 1"
    by (simp only: lens)
  then have one: "length (filter (\<lambda>p. \<not> chunkSize dvd part_length p) parts) \<le> 1"
    by (simp add: filter_map comp_def)
  have k: "?k < length parts"
    using leftover_index_in_range(2) [OF g] len by simp
  have nth: "part_length (parts ! j) = ?sizes ! j" if "j < length parts" for j
    using that nth_map [of j parts part_length] lens by simp
  have "\<forall>j<length parts. j \<noteq> ?k \<longrightarrow> chunkSize dvd part_length (parts ! j)"
    using aligned nth len by simp
  with k one show ?thesis by blast
qed

theorem split_at_most_one_unaligned_witness:
  "(1::int) \<le> 100 \<and> (100::int) < 150 \<and> (1::int) \<le> 2 \<and> (150::int) < 2 ^ 53
   \<and> splitSizeIntoChunkAlignedParts 150 2 100 = Inr [\<lparr>start = 0, finish = 100\<rparr>, \<lparr>start = 100, finish = 150\<rparr>]
   \<and> length (filter (\<lambda>p. \<not> (100::int) dvd part_length p)
               [\<lparr>start = 0, finish = 100\<rparr>, \<lparr>start = 100, finish = 150\<rparr>]) \<le> 1
   \<and> (\<exists>k<length [\<lparr>start = 0, finish = 100\<rparr>, \<lparr>start = 100, finish = (150::int)\<rparr>].
         \<forall>j<length [\<lparr>start = 0, finish = 100\<rparr>, \<lparr>start = 100, finish = (150::int)\<rparr>].
           j \<noteq> k \<longrightarrow> (100::int) dvd part_length ([\<lparr>start = 0, finish = 100\<rparr>, \<lparr>start = 100, finish = 150\<rparr>] ! j))"
proof -
  have run: "splitSizeIntoChunkAlignedParts 150 2 100
               = Inr [\<lparr>start = 0, finish = 100\<rparr>, \<lparr>start = 100, finish = 150\<rparr>]"
    by code_simp
  show ?thesis
    using run split_at_most_one_unaligned [of 100 150 2, OF _ _ _ run] by simp
qed

subsection \<open>The source refines the specified algorithm\<close>

text \<open>
  Claim C3. On every input that passes the guards, in the range of exact arithmetic
  (\<open>totalSize < 2 ^ 53\<close>) and of arrays (\<open>partCount < 2 ^ 32\<close>),
  \<^verbatim>\<open>splitSizeIntoChunkAlignedParts\<close> returns the ranges of the specified algorithm: with
  \<open>fullChunks = totalSize div chunkSize\<close>, every \<open>i\<close> in \<open>[0, fullChunks)\<close> adds \<open>chunkSize\<close> to the size at
  \<open>i mod partCount\<close>, a positive leftover \<open>totalSize mod chunkSize\<close> is added to the size
  at \<open>min fullChunks (partCount - 1)\<close>, and the sizes become ranges by cumulative offsets
  from 0. In particular \<open>totalSize = 150\<close>, \<open>chunkSize = 100\<close>, \<open>partCount = 2\<close> gives the
  sizes \<open>[100, 50]\<close> and exactly the ranges \<open>[(0, 100), (100, 150)]\<close>.
\<close>

theorem split_refines_spec:
  "(1 \<le> partCount \<and> partCount < 2 ^ 32 \<and> 1 \<le> chunkSize \<and> chunkSize < totalSize
      \<and> totalSize < 2 ^ 53 \<longrightarrow>
      splitSizeIntoChunkAlignedParts totalSize partCount chunkSize
        = Inr (spec_ranges (spec_sizes totalSize partCount chunkSize)))
   \<and> spec_sizes 150 2 100 = [100, 50]
   \<and> splitSizeIntoChunkAlignedParts 150 2 100
        = Inr [\<lparr>start = 0, finish = 100\<rparr>, \<lparr>start = 100, finish = 150\<rparr>]"
proof (intro conjI impI)
  assume a: "1 \<le> partCount \<and> partCount < 2 ^ 32 \<and> 1 \<le> chunkSize \<and> chunkSize < totalSize
      \<and> totalSize < 2 ^ 53"
  then have g: "1 \<le> partCount" "1 \<le> chunkSize" "chunkSize < totalSize" by simp_all
  from a have bound: "partCount < 2 ^ 32" by simp
  show "splitSizeIntoChunkAlignedParts totalSize partCount chunkSize
          = Inr (spec_ranges (spec_sizes totalSize partCount chunkSize))"
    by (simp only: split_final_sizes [OF g bound] final_sizes_spec [OF g])
next
  show "spec_sizes 150 2 100 = [100, 50]"
    by code_simp
next
  show "splitSizeIntoChunkAlignedParts 150 2 100
          = Inr [\<lparr>start = 0, finish = 100\<rparr>, \<lparr>start = 100, finish = 150\<rparr>]"
    by code_simp
qed

theorem split_refines_spec_witness:
  "(1::int) \<le> 3 \<and> (3::int) < 2 ^ 32 \<and> (1::int) \<le> 4 \<and> (4::int) < 10 \<and> (10::int) < 2 ^ 53
   \<and> splitSizeIntoChunkAlignedParts 10 3 4 = Inr (spec_ranges (spec_sizes 10 3 4))
   \<and> spec_ranges (spec_sizes 10 3 4)
        = [\<lparr>start = 0, finish = 4\<rparr>, \<lparr>start = 4, finish = 8\<rparr>, \<lparr>start = 8, finish = 10\<rparr>]"
proof -
  have "spec_ranges (spec_sizes 10 3 4)
          = [\<lparr>start = 0, finish = 4\<rparr>, \<lparr>start = 4, finish = 8\<rparr>, \<lparr>start = 8, finish = 10\<rparr>]"
    by code_simp
  then show ?thesis
    using split_refines_spec [of 3 4 10] by simp
qed

subsection \<open>When the partitioner fails\<close>

lemma final_sizes_single:
  assumes "1 \<le> chunkSize" "chunkSize < totalSize"
  shows "final_sizes totalSize 1 chunkSize = [totalSize]"
proof -
  let ?sizes = "final_sizes totalSize 1 chunkSize"
  have "length ?sizes = 1" by simp
  then obtain x where x: "?sizes = [x]"
    by (cases ?sizes) auto
  moreover have "sum_list ?sizes = totalSize"
    using assms by (simp add: sum_list_final_sizes)
  ultimately show ?thesis by simp
qed

text \<open>
  Claim C4, as the code has it. In the range of exact arithmetic (\<open>totalSize < 2 ^ 53\<close>)
  and of arrays (\<open>partCount < 2 ^ 32\<close>), \<^verbatim>\<open>splitSizeIntoChunkAlignedParts\<close> fails if and
  only if \<open>partCount < 1\<close>, or \<open>chunkSize < 1\<close>, or \<open>totalSize \<le> chunkSize\<close>, whatever the part
  count; every failure is an \<open>InvalidArgument\<close>; and for \<open>partCount = 1\<close> and
  \<open>totalSize > chunkSize \<ge> 1\<close> it returns the single part \<open>[0, totalSize)\<close>.
\<close>

theorem split_fails_iff:
  assumes "totalSize < 2 ^ 53" "partCount < 2 ^ 32"
  shows "(isl (splitSizeIntoChunkAlignedParts totalSize partCount chunkSize)
      \<longleftrightarrow> (partCount < 1 \<or> chunkSize < 1 \<or> totalSize \<le> chunkSize))
   \<and> (\<forall>err. splitSizeIntoChunkAlignedParts totalSize partCount chunkSize = Inl err
          \<longrightarrow> (\<exists>name. err = InvalidArgument name))
   \<and> (1 \<le> chunkSize \<and> chunkSize < totalSize \<longrightarrow>
        splitSizeIntoChunkAlignedParts totalSize 1 chunkSize
          = Inr [\<lparr>start = 0, finish = totalSize\<rparr>])"
proof (intro conjI impI allI)
  show "isl (splitSizeIntoChunkAlignedParts totalSize partCount chunkSize)
          \<longleftrightarrow> (partCount < 1 \<or> chunkSize < 1 \<or> totalSize \<le> chunkSize)"
    using assms(2)
    by (simp add: splitSizeIntoChunkAlignedParts_def
        throwValidationError_def Let_def)
next
  fix err
  assume "splitSizeIntoChunkAlignedParts totalSize partCount chunkSize = Inl err"
  then show "\<exists>name. err = InvalidArgument name"
    using assms(2)
    by (auto simp add: splitSizeIntoChunkAlignedParts_def
        throwValidationError_def Let_def split: if_splits)
next
  assume "1 \<le> chunkSize \<and> chunkSize < totalSize"
  then have g: "1 \<le> chunkSize" "chunkSize < totalSize" by simp_all
  have "splitSizeIntoChunkAlignedParts totalSize 1 chunkSize
          = Inr (spec_ranges (final_sizes totalSize 1 chunkSize))"
    using g by (simp add: split_final_sizes)
  then show "splitSizeIntoChunkAlignedParts totalSize 1 chunkSize
               = Inr [\<lparr>start = 0, finish = totalSize\<rparr>]"
    by (simp add: final_sizes_single [OF g] spec_ranges_def)
qed

theorem split_fails_iff_witness:
  "(5::int) < 2 ^ 53 \<and> (1::int) < 2 ^ 32 \<and> (0::int) < 2 ^ 53 \<and> (3::int) < 2 ^ 32
   \<and> (25::int) < 2 ^ 53
   \<and> isl (splitSizeIntoChunkAlignedParts 5 1 10)
   \<and> splitSizeIntoChunkAlignedParts 0 3 7 = Inl (InvalidArgument ''totalSize'')
   \<and> (1::int) \<le> 10 \<and> (10::int) < 25
   \<and> splitSizeIntoChunkAlignedParts 25 1 10 = Inr [\<lparr>start = 0, finish = 25\<rparr>]"
proof -
  have "splitSizeIntoChunkAlignedParts 0 3 7 = Inl (InvalidArgument ''totalSize'')"
    by (simp add: splitSizeIntoChunkAlignedParts_def throwValidationError_def)
  then show ?thesis
    using split_fails_iff [of 5 1 10] split_fails_iff [of 0 3 7] split_fails_iff [of 25 1 10]
    by simp
qed

text \<open>
  The claim as stated lets \<open>partCount = 1\<close> succeed for every \<open>totalSize \<ge> 1\<close> and
  \<open>chunkSize \<ge> 1\<close>: with \<open>totalSize = 5\<close> and \<open>chunkSize = 10\<close> none of its three failure
  conditions holds, and the code fails all the same.
\<close>

theorem split_single_part_counterexample:
  "(1::int) \<le> 5 \<and> (1::int) \<le> 10
   \<and> \<not> ((1::int) < 1 \<or> (10::int) < 1 \<or> ((5::int) \<le> 10 \<and> (1::int) > 1))
   \<and> splitSizeIntoChunkAlignedParts 5 1 10 = Inl (InvalidArgument ''totalSize'')
   \<and> splitSizeIntoChunkAlignedParts 5 1 10 \<noteq> Inr [\<lparr>start = 0, finish = 5\<rparr>]"
  by (simp add: splitSizeIntoChunkAlignedParts_def throwValidationError_def)

section \<open>The clamp of the parallelism (upload.js, lines 96-118)\<close>

lemma final_sizes_positive:
  assumes "1 \<le> partCount" "1 \<le> chunkSize" "chunkSize < totalSize"
    and clamp: "partCount \<le> - ((- totalSize) div chunkSize)"
    and j: "j < nat partCount"
  shows "0 < final_sizes totalSize partCount chunkSize ! j"
proof -
  let ?n = "totalSize div chunkSize"
  let ?count = "length (filter (\<lambda>i. i mod nat partCount = j) [0..<nat ?n])"
  let ?k = "nat (min ?n (partCount - 1))"
  note g = assms(1-3)
  have "0 < ?n"
    using assms(2,3) by (simp add: pos_imp_zdiv_pos_iff)
  then have n: "1 \<le> ?n" by simp
  define whole where "whole = chunkSize * int ?count"
  define rest where
    "rest = (if totalSize mod chunkSize > 0 \<and> j = ?k then totalSize mod chunkSize else 0)"
  have nth: "final_sizes totalSize partCount chunkSize ! j = whole + rest"
    unfolding whole_def rest_def by (rule nth_final_sizes [OF g j])
  have rem: "0 \<le> totalSize mod chunkSize"
    using assms(2) by simp
  show ?thesis
  proof (cases "int j < ?n")
    case True
    then have "j < nat ?n" by linarith
    then have "j \<in> set [0..<nat ?n]" by simp
    moreover have "j mod nat partCount = j"
      using j by (rule mod_less)
    ultimately have "j \<in> set (filter (\<lambda>i. i mod nat partCount = j) [0..<nat ?n])"
      by (simp only: set_filter mem_Collect_eq simp_thms)
    then have "0 < ?count"
      by (rule length_pos_if_in_set)
    then have "0 < whole"
      using assms(2) by (simp add: whole_def)
    moreover have "0 \<le> rest"
      using rem by (simp add: rest_def)
    ultimately show ?thesis
      by (simp only: nth add_pos_nonneg)
  next
    case False
    then have jn: "?n \<le> int j" by simp
    have jp: "int j < partCount" using j by simp
    define m where "m = - ((- totalSize) div chunkSize)"
    have m0: "m = ?n" if "totalSize mod chunkSize = 0"
      using that assms(2) by (simp add: m_def zdiv_zminus1_eq_if)
    have m1: "m = ?n + 1" if "totalSize mod chunkSize \<noteq> 0"
      using that assms(2) by (simp add: m_def zdiv_zminus1_eq_if)
    have pm: "partCount \<le> m"
      using clamp by (simp only: m_def)
    have pos: "0 < totalSize mod chunkSize"
    proof (rule ccontr)
      assume "\<not> 0 < totalSize mod chunkSize"
      with rem have "totalSize mod chunkSize = 0" by linarith
      then have "m = ?n" by (rule m0)
      with pm jn jp show False by linarith
    qed
    then have "m = ?n + 1"
      using m1 by simp
    with pm jn jp have "int j = ?n" "partCount - 1 = ?n"
      by linarith+
    then have "?k = nat (int j)"
      by (simp only: min.idem)
    then have "j = ?k" by simp
    then have "rest = totalSize mod chunkSize"
      using pos by (simp only: rest_def simp_thms if_True)
    then have "0 < rest"
      using pos by simp
    moreover have "0 \<le> whole"
      using assms(2) by (simp add: whole_def)
    ultimately show ?thesis
      by (simp only: nth add_nonneg_pos)
  qed
qed

lemma clamp_le: "(if (n::int) > m then m else n) \<le> n"
  by simp

text \<open>
  With \<open>chunkSizeMultiplier = 1\<close> the clamp does what its comment announces, in the range
  of exact arithmetic (\<open>filesize < 2 ^ 53\<close>) and of arrays (\<open>numParallelUploads < 2 ^ 32\<close>):
  whenever \<^verbatim>\<open>uploadLargeFile\<close> configures a parallel upload, the partitioner succeeds on the
  size of the file and the clamped number of parts, and every part of the plan has a
  positive length.
\<close>

theorem clamped_plan_no_empty_part:
  assumes valid: "uploadLargeFile_validation opts = Inr ()"
    and base: "chunkSizeMultiplier opts = 1"
    and chunk: "0 < TUS_CHUNK_SIZE e"
    and plan: "partitionPlan (uploadLargeFile_tusOpts e filename filesize opts) filesize = Some plan"
    and exact: "filesize < 2 ^ 53"
    and count: "numParallelUploads opts < 2 ^ 32"
  shows "\<exists>parts. plan = Inr parts \<and> (\<forall>p\<in>set parts. 0 < part_length p)"
proof -
  let ?c = "TUS_CHUNK_SIZE e"
  let ?numChunks = "\<lceil>rat_of_int filesize / rat_of_int ?c\<rceil>"
  let ?p = "if \<lfloor>numParallelUploads opts\<rfloor> > ?numChunks then ?numChunks
            else \<lfloor>numParallelUploads opts\<rfloor>"
  have numChunks: "?numChunks = - ((- filesize) div ?c)"
    by (rule ceiling_divide_eq_div)
  from plan have p: "1 < ?p" and run: "plan = splitSizeIntoChunkAlignedParts filesize ?p ?c"
    using base
    by (auto simp add: partitionPlan_def uploadLargeFile_tusOpts_def Let_def split: if_splits)
  from p have clamp: "?p \<le> - ((- filesize) div ?c)"
    using numChunks by (simp split: if_splits)
  with p have "2 \<le> - ((- filesize) div ?c)" by simp
  moreover have "- ((- filesize) div ?c) \<le> 1" if "filesize \<le> ?c"
  proof -
    have "(- ?c) div ?c \<le> (- filesize) div ?c"
      using that chunk by (intro zdiv_mono1) simp_all
    moreover have "(- ?c) div ?c = - 1"
      using chunk by (simp add: zdiv_zminus1_eq_if)
    ultimately show ?thesis by simp
  qed
  ultimately have size: "?c < filesize"
    by fastforce
  have g: "1 \<le> ?p" "1 \<le> ?c" "?c < filesize"
    using p chunk size by simp_all
  let ?sizes = "final_sizes filesize ?p ?c"
  have "?p \<le> \<lfloor>numParallelUploads opts\<rfloor>"
    by (rule clamp_le)
  moreover have "\<lfloor>numParallelUploads opts\<rfloor> < 2 ^ 32"
    using count by (simp add: floor_less_iff)
  ultimately have bound: "?p < 2 ^ 32"
    by (rule le_less_trans)
  have eq: "plan = Inr (spec_ranges ?sizes)"
    using run split_final_sizes [OF g bound] by simp
  have "0 < part_length q" if "q \<in> set (spec_ranges ?sizes)" for q
  proof -
    from that obtain i where i: "i < length (spec_ranges ?sizes)" "q = spec_ranges ?sizes ! i"
      by (auto simp add: in_set_conv_nth)
    then have i': "i < nat ?p" by simp
    have "part_length q = map part_length (spec_ranges ?sizes) ! i"
      using i by simp
    then have "part_length q = ?sizes ! i"
      by (simp only: map_part_length_spec_ranges)
    with final_sizes_positive [OF g clamp i'] show ?thesis by simp
  qed
  with eq show ?thesis by blast
qed

theorem clamped_plan_no_empty_part_witness:
  "uploadLargeFile_validation example_options = Inr ()
   \<and> chunkSizeMultiplier example_options = 1
   \<and> 0 < TUS_CHUNK_SIZE (example_portal None)
   \<and> (209715200::int) < 2 ^ 53
   \<and> numParallelUploads example_options < 2 ^ 32
   \<and> partitionPlan (uploadLargeFile_tusOpts (example_portal None) ''f'' 209715200 example_options)
         209715200
       = Some (Inr [\<lparr>start = 0, finish = 125829120\<rparr>, \<lparr>start = 125829120, finish = 209715200\<rparr>])
   \<and> (\<exists>parts. Inr [\<lparr>start = 0, finish = 125829120\<rparr>, \<lparr>start = 125829120, finish = 209715200\<rparr>]
                 = (Inr parts :: error + part list)
          \<and> (\<forall>p\<in>set parts. 0 < part_length p))"
proof -
  have a: "uploadLargeFile_validation example_options = Inr ()"
    by code_simp
  have b: "chunkSizeMultiplier example_options = 1"
    by (simp add: example_options_def)
  have c: "0 < TUS_CHUNK_SIZE (example_portal None)"
    by (simp add: example_portal_def)
  have d: "partitionPlan (uploadLargeFile_tusOpts (example_portal None) ''f'' 209715200 example_options)
             209715200
           = Some (Inr [\<lparr>start = 0, finish = 125829120\<rparr>, \<lparr>start = 125829120, finish = 209715200\<rparr>])"
    by code_simp
  have e: "(209715200::int) < 2 ^ 53"
    by simp
  have f: "numParallelUploads example_options < 2 ^ 32"
    by (simp add: example_options_def)
  show ?thesis
    using a b c d e f clamped_plan_no_empty_part [OF a b c d e f] by blast
qed

text \<open>
  Claim C5. The claim: for every large upload with \<open>chunkSizeMultiplier \<ge> 1\<close> and
  \<open>numParallelUploads \<ge> 1\<close>, after the parallelism is clamped to the minimum of
  \<open>numParallelUploads\<close> and \<open>\<lceil>filesize / TUS_CHUNK_SIZE\<rceil>\<close>, no part of the plan has zero
  length. The clamp counts chunks of \<^verbatim>\<open>TUS_CHUNK_SIZE\<close>, while the partitioner cuts chunks
  of \<^verbatim>\<open>TUS_CHUNK_SIZE * chunkSizeMultiplier\<close>. The code is evaluated at a file of 200 MiB,
  a chunk size of 40 MiB, a multiplier of 2 and five parallel uploads: the options are
  valid, the clamp leaves five parts, and the last two parts of the plan are empty.
\<close>

theorem clamped_plan_has_empty_parts:
  "uploadLargeFile_validation (example_options\<lparr>chunkSizeMultiplier := 2, numParallelUploads := 5\<rparr>) = Inr ()
   \<and> tus_parallelUploads (uploadLargeFile_tusOpts (example_portal None) ''f'' 209715200
          (example_options\<lparr>chunkSizeMultiplier := 2, numParallelUploads := 5\<rparr>)) = 5
   \<and> tus_chunkSize (uploadLargeFile_tusOpts (example_portal None) ''f'' 209715200
          (example_options\<lparr>chunkSizeMultiplier := 2, numParallelUploads := 5\<rparr>)) = 83886080
   \<and> partitionPlan (uploadLargeFile_tusOpts (example_portal None) ''f'' 209715200
          (example_options\<lparr>chunkSizeMultiplier := 2, numParallelUploads := 5\<rparr>)) 209715200
       = Some (Inr [\<lparr>start = 0, finish = 83886080\<rparr>,
                    \<lparr>start = 83886080, finish = 167772160\<rparr>,
                    \<lparr>start = 167772160, finish = 209715200\<rparr>,
                    \<lparr>start = 209715200, finish = 209715200\<rparr>,
                    \<lparr>start = 209715200, finish = 209715200\<rparr>])
   \<and> part_length \<lparr>start = 209715200, finish = 209715200\<rparr> = 0"
  by code_simp

section \<open>Properties of the upload paths\<close>

subsection \<open>Validation\<close>

lemma integral_iff: "rat_of_int \<lfloor>v\<rfloor> = v \<longleftrightarrow> v \<in> \<int>"
  by (auto simp add: Ints_def)

lemma validateInteger_Inr: "validateInteger name v = Inr u \<longleftrightarrow> v \<in> \<int>"
  unfolding validateInteger_def throwValidationError_def integral_iff by simp

lemma validateInteger_Inl:
  "validateInteger name v = Inl err \<longleftrightarrow> v \<notin> \<int> \<and> err = InvalidArgument name"
  unfolding validateInteger_def throwValidationError_def integral_iff by auto

lemma validation_ok_iff:
  "uploadLargeFile_validation opts = Inr ()
     \<longleftrightarrow> (\<forall>s. staggerPercent opts = Some s \<longrightarrow> 0 \<le> s \<and> s \<le> 100)
         \<and> 1 \<le> chunkSizeMultiplier opts \<and> chunkSizeMultiplier opts \<in> \<int>
         \<and> 1 \<le> numParallelUploads opts \<and> numParallelUploads opts \<in> \<int>"
proof (cases "staggerPercent opts")
  case None
  then show ?thesis
    by (auto simp add: uploadLargeFile_validation_def throwValidationError_def
        validateInteger_Inr validateInteger_Inl split: sum.splits)
next
  case (Some s)
  then show ?thesis
    by (auto simp add: uploadLargeFile_validation_def throwValidationError_def
        validateInteger_Inr validateInteger_Inl split: sum.splits)
qed

lemma validation_error_is_invalid_argument:
  "uploadLargeFile_validation opts = Inl err \<Longrightarrow> \<exists>name. err = InvalidArgument name"
  by (auto simp add: uploadLargeFile_validation_def throwValidationError_def validateInteger_Inl
      split: if_splits sum.splits)

subsection \<open>Traces of the two paths\<close>

lemma executeRequest_trace:
  "executeRequest e config = (r, tr) \<Longrightarrow>
   \<exists>call. tr = [HttpRequest call] \<and> r = axios e call
      \<and> ax_method call = req_method config
      \<and> (\<forall>u. req_url config = Some u \<and> u \<noteq> [] \<longrightarrow> ax_url call = u)"
  by (auto simp add: executeRequest_def Let_def)

lemma small_file_posts: "posts_form (snd (uploadSmallFile e stream filename opts))"
  by (auto simp add: uploadSmallFile_def executeRequest_def posts_form_def Let_def
      split: sum.splits option.splits)

lemma on_success_never_posts:
  "uploadLargeFile_onSuccess e opts headers upload_url = (r, tr) \<Longrightarrow> \<not> posts_form tr"
  by (auto simp add: uploadLargeFile_onSuccess_def executeRequest_def posts_form_def Let_def
      split: sum.splits option.splits if_splits)

lemma large_file_never_posts: "\<not> posts_form (snd (uploadLargeFile e stream filename filesize opts))"
proof -
  have "\<not> posts_form (UploadStarted # tr)" if "\<not> posts_form tr" for tr
    using that by (simp add: posts_form_def)
  then show ?thesis
    by (auto simp add: uploadLargeFile_def Let_def
        split: sum.splits tus_result.splits prod.splits
        dest: on_success_never_posts) (simp_all add: posts_form_def)
qed

subsection \<open>The formatting helper\<close>

lemma formatSkylink_bare:
  "take (length pfx) skylink \<noteq> pfx \<Longrightarrow> formatSkylink pfx skylink = skylink"
  by (simp add: formatSkylink.simps)

lemma formatSkylink_unprefixed:
  "pfx \<noteq> [] \<Longrightarrow> take (length pfx) (formatSkylink pfx skylink) \<noteq> pfx"
proof (induction pfx skylink rule: formatSkylink.induct)
  case (1 pfx skylink)
  show ?case
  proof (cases "take (length pfx) skylink = pfx")
    case True
    then have "formatSkylink pfx skylink = formatSkylink pfx (drop (length pfx) skylink)"
      using "1.prems" by (simp add: formatSkylink.simps [of pfx skylink])
    with "1.IH" "1.prems" True show ?thesis by simp
  next
    case False
    then show ?thesis by (simp add: formatSkylink_bare)
  qed
qed

lemma formatSkylink_idempotent:
  "formatSkylink pfx (formatSkylink pfx skylink) = formatSkylink pfx skylink"
proof (cases "pfx = []")
  case True
  then show ?thesis by (simp add: formatSkylink.simps)
next
  case False
  then show ?thesis
    by (simp add: formatSkylink_bare formatSkylink_unprefixed)
qed

subsection \<open>Validation precedes all I/O\<close>

text \<open>
  Claim C8. In the large-file path the options are validated before any network
  activity: when \<open>chunkSizeMultiplier\<close> is below 1 or not integral, or
  \<open>numParallelUploads\<close> is below 1 or not integral, or \<open>staggerPercent\<close> is present and
  outside \<open>[0, 100]\<close>, the operation fails with \<open>InvalidArgument\<close>, the transfer engine is
  not started and no request is issued: the trace is empty.
\<close>

theorem validation_precedes_io:
  assumes "chunkSizeMultiplier opts < 1 \<or> chunkSizeMultiplier opts \<notin> \<int>
           \<or> numParallelUploads opts < 1 \<or> numParallelUploads opts \<notin> \<int>
           \<or> (\<exists>s. staggerPercent opts = Some s \<and> (s < 0 \<or> 100 < s))"
  shows "\<exists>name. uploadLargeFile e stream filename filesize opts
                  = (Rejected (InvalidArgument name), [])"
proof -
  from assms have "uploadLargeFile_validation opts \<noteq> Inr ()"
    by (auto simp add: validation_ok_iff)
  then obtain err where err: "uploadLargeFile_validation opts = Inl err"
    by (cases "uploadLargeFile_validation opts") auto
  then obtain name where "err = InvalidArgument name"
    using validation_error_is_invalid_argument by blast
  with err show ?thesis
    by (simp add: uploadLargeFile_def)
qed

theorem validation_precedes_io_witness:
  "chunkSizeMultiplier (example_options\<lparr>chunkSizeMultiplier := 0\<rparr>) < 1
   \<and> (\<exists>name. uploadLargeFile (example_portal (Some example_skylink)) [1, 2, 3] ''f'' 209715200
                 (example_options\<lparr>chunkSizeMultiplier := 0\<rparr>)
               = (Rejected (InvalidArgument name), []))
   \<and> snd (uploadLargeFile (example_portal (Some example_skylink)) [1, 2, 3] ''f'' 209715200
            example_options) \<noteq> []"
proof -
  have a: "chunkSizeMultiplier (example_options\<lparr>chunkSizeMultiplier := 0\<rparr>) < 1"
    by (simp add: example_options_def)
  have b: "snd (uploadLargeFile (example_portal (Some example_skylink)) [1, 2, 3] ''f'' 209715200
             example_options) \<noteq> []"
    by code_simp
  show ?thesis
    using a b validation_precedes_io [of "example_options\<lparr>chunkSizeMultiplier := 0\<rparr>"
        "example_portal (Some example_skylink)" "[1, 2, 3]" "''f''" 209715200]
    by blast
qed

subsection \<open>The status probe\<close>

text \<open>
  Claim C7, as the code has it. In the large-file path, when the options are valid and
  all sessions have completed: if the location of the upload is not set, the operation
  fails with \<open>UploadIncomplete\<close>, without a probe; otherwise it issues exactly one
  \<^verbatim>\<open>HEAD\<close> request, against that location, and an answered probe resolves the operation
  with the scheme prefix followed by the \<^verbatim>\<open>skynet-skylink\<close> header of the response. The
  presence of the header is not checked: when it is absent the operation does not fail,
  it resolves with the prefix followed by the text \<^verbatim>\<open>undefined\<close>.
\<close>

theorem large_upload_probe:
  assumes "uploadLargeFile_validation opts = Inr ()"
    and "tusUpload e stream (uploadLargeFile_tusOpts e filename filesize opts) = TusSuccess upload_url"
  shows "(upload_url = None \<or> upload_url = Some [] \<longrightarrow>
            uploadLargeFile e stream filename filesize opts
              = (Rejected UploadIncomplete, [UploadStarted]))
       \<and> (\<forall>u. upload_url = Some u \<and> u \<noteq> [] \<longrightarrow>
            (\<exists>call. snd (uploadLargeFile e stream filename filesize opts)
                       = [UploadStarted, HttpRequest call]
                 \<and> ax_url call = u \<and> ax_method call = ''head''
                 \<and> (\<forall>resp. axios e call = Inr resp \<longrightarrow>
                       fst (uploadLargeFile e stream filename filesize opts)
                         = Resolved (uriSkynetPrefix e
                                     @ (case resp_headers resp ''skynet-skylink'' of
                                          None \<Rightarrow> ''undefined'' | Some skylink \<Rightarrow> skylink)))))"
proof (intro conjI allI impI)
  assume "upload_url = None \<or> upload_url = Some []"
  then show "uploadLargeFile e stream filename filesize opts
               = (Rejected UploadIncomplete, [UploadStarted])"
    using assms by (auto simp add: uploadLargeFile_def uploadLargeFile_onSuccess_def Let_def)
next
  fix u
  assume u: "upload_url = Some u \<and> u \<noteq> []"
  let ?headers = "tus_headers (uploadLargeFile_tusOpts e filename filesize opts)"
  let ?config = "\<lparr>req_opts = opts, req_url = Some u,
                   req_endpointPath = endpointLargeUpload opts, req_method = ''head'',
                   req_headers = ?headers(''Tus-Resumable'' \<mapsto> ''1.0.0''),
                   req_data = None, req_dryrun = False\<rparr>"
  obtain r tr where rt: "executeRequest e ?config = (r, tr)"
    by (cases "executeRequest e ?config")
  from executeRequest_trace [OF rt] u obtain call
    where call: "tr = [HttpRequest call]" "r = axios e call"
      "ax_method call = ''head''" "ax_url call = u"
    by auto
  have run: "uploadLargeFile e stream filename filesize opts
           = (case r of Inl err \<Rightarrow> Unsettled
                      | Inr resp \<Rightarrow> Resolved (uriSkynetPrefix e
                                     @ js_template (resp_headers resp ''skynet-skylink'')),
              UploadStarted # tr)"
    using assms u rt
    by (simp add: uploadLargeFile_def uploadLargeFile_onSuccess_def Let_def split: sum.splits)
  have "snd (uploadLargeFile e stream filename filesize opts) = [UploadStarted, HttpRequest call]"
    using run call(1) by simp
  moreover have "\<forall>resp. axios e call = Inr resp \<longrightarrow>
      fst (uploadLargeFile e stream filename filesize opts)
        = Resolved (uriSkynetPrefix e
                    @ (case resp_headers resp ''skynet-skylink'' of
                         None \<Rightarrow> ''undefined'' | Some skylink \<Rightarrow> skylink))"
    using run call(2) by (simp add: js_template_def)
  ultimately show "\<exists>call. snd (uploadLargeFile e stream filename filesize opts)
                       = [UploadStarted, HttpRequest call]
                 \<and> ax_url call = u \<and> ax_method call = ''head''
                 \<and> (\<forall>resp. axios e call = Inr resp \<longrightarrow>
                       fst (uploadLargeFile e stream filename filesize opts)
                         = Resolved (uriSkynetPrefix e
                                     @ (case resp_headers resp ''skynet-skylink'' of
                                          None \<Rightarrow> ''undefined'' | Some skylink \<Rightarrow> skylink)))"
    using call(3,4) by blast
qed

theorem large_upload_probe_witness:
  "uploadLargeFile_validation example_options = Inr ()
   \<and> tusUpload (example_portal (Some example_skylink)) [1, 2, 3]
        (uploadLargeFile_tusOpts (example_portal (Some example_skylink)) ''f'' 209715200 example_options)
       = TusSuccess (Some ''https://siasky.net/skynet/tus/1'')
   \<and> (\<exists>call. snd (uploadLargeFile (example_portal (Some example_skylink)) [1, 2, 3] ''f''
                     209715200 example_options)
                = [UploadStarted, HttpRequest call]
          \<and> ax_url call = ''https://siasky.net/skynet/tus/1'' \<and> ax_method call = ''head'')
   \<and> fst (uploadLargeFile (example_portal (Some example_skylink)) [1, 2, 3] ''f''
            209715200 example_options)
       = Resolved ''sia://XABvi7JtJbQSMAcDwnUnmp2FKDPjg8_tTTFP4BwMSxVdEg''"
proof -
  have a: "uploadLargeFile_validation example_options = Inr ()"
    by code_simp
  have b: "tusUpload (example_portal (Some example_skylink)) [1, 2, 3]
        (uploadLargeFile_tusOpts (example_portal (Some example_skylink)) ''f'' 209715200 example_options)
       = TusSuccess (Some ''https://siasky.net/skynet/tus/1'')"
    by (simp add: example_portal_def)
  have c: "fst (uploadLargeFile (example_portal (Some example_skylink)) [1, 2, 3] ''f''
            209715200 example_options)
       = Resolved ''sia://XABvi7JtJbQSMAcDwnUnmp2FKDPjg8_tTTFP4BwMSxVdEg''"
    by code_simp
  show ?thesis
    using a b c large_upload_probe [OF a b] by blast
qed

text \<open>
  The claim as stated: whenever the skylink is absent from the probe response, the
  operation fails and returns no identifier. On a portal whose probe response carries no
  \<^verbatim>\<open>skynet-skylink\<close> header the operation resolves.
\<close>

theorem absent_skylink_counterexample:
  "resp_headers (projr (axios (example_portal None)
       \<lparr>ax_url = ''https://siasky.net/skynet/tus/1'', ax_method = ''head'', ax_data = None,
        ax_dryrun = False, ax_headers = [''Tus-Resumable'' \<mapsto> ''1.0.0''],
        ax_password = None\<rparr>)) ''skynet-skylink'' = None
   \<and> fst (uploadLargeFile (example_portal None) [1, 2, 3] ''f'' 209715200 example_options)
       = Resolved ''sia://undefined''"
  by code_simp

subsection \<open>Strategy selection\<close>

text \<open>
  Claim C9. Strategy selection is a threshold comparison: \<^verbatim>\<open>uploadData\<close> and \<^verbatim>\<open>uploadFile\<close>
  take the small-file path if and only if \<open>sizeInBytes < largeFileSize\<close>, and the
  large-file path otherwise: each of them is \<^verbatim>\<open>uploadSmallFile\<close> on its stream and file
  name below the threshold and \<^verbatim>\<open>uploadLargeFile\<close> on them and the size from the
  threshold on, and posts a form exactly in the first case; so
  \<open>sizeInBytes = largeFileSize\<close> goes to the large-file path
  and \<open>sizeInBytes = largeFileSize - 1\<close> to the small-file path.
\<close>

theorem strategy_is_threshold:
  "(int (length data) < largeFileSize opts \<longrightarrow>
      uploadData e data filename opts = uploadSmallFile e data filename opts)
   \<and> (\<not> int (length data) < largeFileSize opts \<longrightarrow>
      uploadData e data filename opts = uploadLargeFile e data filename (int (length data)) opts)
   \<and> (posts_form (snd (uploadData e data filename opts))
        \<longleftrightarrow> int (length data) < largeFileSize opts)
   \<and> (fs_stat e path = Inr sizeInBytes \<longrightarrow>
        (posts_form (snd (uploadFile e path opts)) \<longleftrightarrow> sizeInBytes < largeFileSize opts))
   \<and> (fs_stat e path = Inr sizeInBytes \<and> sizeInBytes < largeFileSize opts \<longrightarrow>
        uploadFile e path opts
          = uploadSmallFile e (createReadStream e path)
              (if customFilename opts \<noteq> [] then customFilename opts else basename e path) opts)
   \<and> (fs_stat e path = Inr sizeInBytes \<and> \<not> sizeInBytes < largeFileSize opts \<longrightarrow>
        uploadFile e path opts
          = uploadLargeFile e (createReadStream e path)
              (if customFilename opts \<noteq> [] then customFilename opts else basename e path)
              sizeInBytes opts)"
proof (intro conjI impI)
  show "uploadData e data filename opts = uploadSmallFile e data filename opts"
    if "int (length data) < largeFileSize opts"
    using that by (simp add: uploadData_def)
  show "uploadData e data filename opts = uploadLargeFile e data filename (int (length data)) opts"
    if "\<not> int (length data) < largeFileSize opts"
    using that by (simp add: uploadData_def)
  show "posts_form (snd (uploadData e data filename opts))
          \<longleftrightarrow> int (length data) < largeFileSize opts"
    by (simp add: uploadData_def Let_def small_file_posts large_file_never_posts)
  show "posts_form (snd (uploadFile e path opts)) \<longleftrightarrow> sizeInBytes < largeFileSize opts"
    if "fs_stat e path = Inr sizeInBytes"
    using that by (simp add: uploadFile_def Let_def small_file_posts large_file_never_posts)
  show "uploadFile e path opts
          = uploadSmallFile e (createReadStream e path)
              (if customFilename opts \<noteq> [] then customFilename opts else basename e path) opts"
    if "fs_stat e path = Inr sizeInBytes \<and> sizeInBytes < largeFileSize opts"
    using that by (simp add: uploadFile_def Let_def)
  show "uploadFile e path opts
          = uploadLargeFile e (createReadStream e path)
              (if customFilename opts \<noteq> [] then customFilename opts else basename e path)
              sizeInBytes opts"
    if "fs_stat e path = Inr sizeInBytes \<and> \<not> sizeInBytes < largeFileSize opts"
    using that by (simp add: uploadFile_def Let_def)
qed

theorem strategy_is_threshold_witness:
  "\<not> int (length [1, 2, 3::nat]) < largeFileSize (example_options\<lparr>largeFileSize := 3\<rparr>)
   \<and> uploadData (example_portal (Some example_skylink)) [1, 2, 3] ''f''
        (example_options\<lparr>largeFileSize := 3\<rparr>)
       = uploadLargeFile (example_portal (Some example_skylink)) [1, 2, 3] ''f'' 3
           (example_options\<lparr>largeFileSize := 3\<rparr>)
   \<and> int (length [1, 2, 3::nat]) < largeFileSize (example_options\<lparr>largeFileSize := 4\<rparr>)
   \<and> uploadData (example_portal (Some example_skylink)) [1, 2, 3] ''f''
        (example_options\<lparr>largeFileSize := 4\<rparr>)
       = uploadSmallFile (example_portal (Some example_skylink)) [1, 2, 3] ''f''
           (example_options\<lparr>largeFileSize := 4\<rparr>)
   \<and> fs_stat (example_portal (Some example_skylink)) ''f'' = Inr 3
   \<and> \<not> posts_form (snd (uploadFile (example_portal (Some example_skylink)) ''f''
                           (example_options\<lparr>largeFileSize := 3\<rparr>)))
   \<and> posts_form (snd (uploadFile (example_portal (Some example_skylink)) ''f''
                         (example_options\<lparr>largeFileSize := 4\<rparr>)))
   \<and> uploadFile (example_portal (Some example_skylink)) ''f''
        (example_options\<lparr>largeFileSize := 3\<rparr>)
       = uploadLargeFile (example_portal (Some example_skylink)) [1, 2, 3] ''f'' 3
           (example_options\<lparr>largeFileSize := 3\<rparr>)
   \<and> uploadFile (example_portal (Some example_skylink)) ''f''
        (example_options\<lparr>largeFileSize := 4\<rparr>)
       = uploadSmallFile (example_portal (Some example_skylink)) [1, 2, 3] ''f''
           (example_options\<lparr>largeFileSize := 4\<rparr>)
   \<and> fst (uploadFile (example_portal (Some example_skylink)) ''f''
            (example_options\<lparr>largeFileSize := 3\<rparr>))
       = Resolved ''sia://XABvi7JtJbQSMAcDwnUnmp2FKDPjg8_tTTFP4BwMSxVdEg''
   \<and> fst (uploadFile (example_portal (Some example_skylink)) ''f''
            (example_options\<lparr>largeFileSize := 4\<rparr>))
       = Resolved ''XABvi7JtJbQSMAcDwnUnmp2FKDPjg8_tTTFP4BwMSxVdEg''"
proof -
  have large: "fst (uploadFile (example_portal (Some example_skylink)) ''f''
                  (example_options\<lparr>largeFileSize := 3\<rparr>))
       = Resolved ''sia://XABvi7JtJbQSMAcDwnUnmp2FKDPjg8_tTTFP4BwMSxVdEg''"
    by code_simp
  have small: "fst (uploadFile (example_portal (Some example_skylink)) ''f''
                  (example_options\<lparr>largeFileSize := 4\<rparr>))
       = Resolved ''XABvi7JtJbQSMAcDwnUnmp2FKDPjg8_tTTFP4BwMSxVdEg''"
    by code_simp
  have st: "fs_stat (example_portal (Some example_skylink)) ''f'' = Inr 3"
    by (simp add: example_portal_def)
  have rs: "createReadStream (example_portal (Some example_skylink)) ''f'' = [1, 2, 3]"
    by (simp add: example_portal_def)
  have bn: "basename (example_portal (Some example_skylink)) ''f'' = ''f''"
    by (simp add: example_portal_def)
  have cf: "customFilename example_options = []"
    by (simp add: example_options_def)
  have routes:
    "\<not> int (length [1, 2, 3::nat]) < largeFileSize (example_options\<lparr>largeFileSize := 3\<rparr>)
     \<and> uploadData (example_portal (Some example_skylink)) [1, 2, 3] ''f''
          (example_options\<lparr>largeFileSize := 3\<rparr>)
         = uploadLargeFile (example_portal (Some example_skylink)) [1, 2, 3] ''f'' 3
             (example_options\<lparr>largeFileSize := 3\<rparr>)
     \<and> int (length [1, 2, 3::nat]) < largeFileSize (example_options\<lparr>largeFileSize := 4\<rparr>)
     \<and> uploadData (example_portal (Some example_skylink)) [1, 2, 3] ''f''
          (example_options\<lparr>largeFileSize := 4\<rparr>)
         = uploadSmallFile (example_portal (Some example_skylink)) [1, 2, 3] ''f''
             (example_options\<lparr>largeFileSize := 4\<rparr>)
     \<and> fs_stat (example_portal (Some example_skylink)) ''f'' = Inr 3
     \<and> \<not> posts_form (snd (uploadFile (example_portal (Some example_skylink)) ''f''
                             (example_options\<lparr>largeFileSize := 3\<rparr>)))
     \<and> posts_form (snd (uploadFile (example_portal (Some example_skylink)) ''f''
                           (example_options\<lparr>largeFileSize := 4\<rparr>)))
     \<and> uploadFile (example_portal (Some example_skylink)) ''f''
          (example_options\<lparr>largeFileSize := 3\<rparr>)
         = uploadLargeFile (example_portal (Some example_skylink)) [1, 2, 3] ''f'' 3
             (example_options\<lparr>largeFileSize := 3\<rparr>)
     \<and> uploadFile (example_portal (Some example_skylink)) ''f''
          (example_options\<lparr>largeFileSize := 4\<rparr>)
         = uploadSmallFile (example_portal (Some example_skylink)) [1, 2, 3] ''f''
             (example_options\<lparr>largeFileSize := 4\<rparr>)"
    using st rs bn cf
      strategy_is_threshold [of "[1, 2, 3]" "example_options\<lparr>largeFileSize := 3\<rparr>"
        "example_portal (Some example_skylink)" "''f''" "''f''" 3]
      strategy_is_threshold [of "[1, 2, 3]" "example_options\<lparr>largeFileSize := 4\<rparr>"
        "example_portal (Some example_skylink)" "''f''" "''f''" 3]
    by (auto simp add: small_file_posts large_file_never_posts)
  from routes large small show ?thesis
    by blast
qed

subsection \<open>What the two paths return\<close>

text \<open>
  Claim C10. The two paths return the identifier in different formats. A small-file
  upload that succeeds has issued one request and returns the \<^verbatim>\<open>skylink\<close> field of the
  response body as \<^verbatim>\<open>formatSkylink\<close> leaves it: never prefixed with the URI scheme
  prefix, and unchanged when the field is bare. A large-file upload that succeeds
  returns the URI scheme prefix followed by the \<^verbatim>\<open>skynet-skylink\<close> header of the probe
  response.
\<close>

theorem paths_return_formats:
  "(uploadSmallFile e stream filename opts = (Resolved r, tr) \<longrightarrow>
      (\<exists>call resp skylink. tr = [HttpRequest call] \<and> ax_method call = ''post''
          \<and> axios e call = Inr resp \<and> resp_data_skylink resp = Some skylink
          \<and> r = formatSkylink (uriSkynetPrefix e) skylink
          \<and> (take (length (uriSkynetPrefix e)) skylink \<noteq> uriSkynetPrefix e \<longrightarrow> r = skylink)
          \<and> (uriSkynetPrefix e \<noteq> [] \<longrightarrow> take (length (uriSkynetPrefix e)) r \<noteq> uriSkynetPrefix e)))
   \<and> (uploadLargeFile e stream filename filesize opts = (Resolved r', tr') \<longrightarrow>
      (\<exists>call resp. tr' = [UploadStarted, HttpRequest call] \<and> ax_method call = ''head''
          \<and> axios e call = Inr resp
          \<and> r' = uriSkynetPrefix e @ js_template (resp_headers resp ''skynet-skylink'')
          \<and> take (length (uriSkynetPrefix e)) r' = uriSkynetPrefix e))"
proof (intro conjI impI)
  assume "uploadSmallFile e stream filename opts = (Resolved r, tr)"
  then obtain call resp skylink where
    "tr = [HttpRequest call]" "ax_method call = ''post''" "axios e call = Inr resp"
    "resp_data_skylink resp = Some skylink" "r = formatSkylink (uriSkynetPrefix e) skylink"
    by (auto simp add: uploadSmallFile_def executeRequest_def Let_def
        split: sum.splits option.splits)
  then show "\<exists>call resp skylink. tr = [HttpRequest call] \<and> ax_method call = ''post''
          \<and> axios e call = Inr resp \<and> resp_data_skylink resp = Some skylink
          \<and> r = formatSkylink (uriSkynetPrefix e) skylink
          \<and> (take (length (uriSkynetPrefix e)) skylink \<noteq> uriSkynetPrefix e \<longrightarrow> r = skylink)
          \<and> (uriSkynetPrefix e \<noteq> [] \<longrightarrow> take (length (uriSkynetPrefix e)) r \<noteq> uriSkynetPrefix e)"
    using formatSkylink_bare formatSkylink_unprefixed by blast
next
  assume "uploadLargeFile e stream filename filesize opts = (Resolved r', tr')"
  then obtain call resp where
    "tr' = [UploadStarted, HttpRequest call]" "ax_method call = ''head''"
    "axios e call = Inr resp"
    "r' = uriSkynetPrefix e @ js_template (resp_headers resp ''skynet-skylink'')"
    by (auto simp add: uploadLargeFile_def uploadLargeFile_onSuccess_def executeRequest_def Let_def
        split: sum.splits option.splits tus_result.splits if_splits)
  then show "\<exists>call resp. tr' = [UploadStarted, HttpRequest call] \<and> ax_method call = ''head''
          \<and> axios e call = Inr resp
          \<and> r' = uriSkynetPrefix e @ js_template (resp_headers resp ''skynet-skylink'')
          \<and> take (length (uriSkynetPrefix e)) r' = uriSkynetPrefix e"
    by auto
qed

theorem paths_return_formats_witness:
  "fst (uploadSmallFile (example_portal (Some example_skylink)) [1, 2, 3] ''f'' example_options)
     = Resolved ''XABvi7JtJbQSMAcDwnUnmp2FKDPjg8_tTTFP4BwMSxVdEg''
   \<and> (\<exists>call. snd (uploadSmallFile (example_portal (Some example_skylink)) [1, 2, 3] ''f''
                     example_options) = [HttpRequest call]
          \<and> ax_method call = ''post'')
   \<and> fst (uploadLargeFile (example_portal (Some example_skylink)) [1, 2, 3] ''f'' 209715200
            example_options)
     = Resolved ''sia://XABvi7JtJbQSMAcDwnUnmp2FKDPjg8_tTTFP4BwMSxVdEg''
   \<and> (\<exists>call. snd (uploadLargeFile (example_portal (Some example_skylink)) [1, 2, 3] ''f''
                     209715200 example_options) = [UploadStarted, HttpRequest call]
          \<and> ax_method call = ''head'')"
proof -
  let ?small = "uploadSmallFile (example_portal (Some example_skylink)) [1, 2, 3] ''f''
                  example_options"
  let ?large = "uploadLargeFile (example_portal (Some example_skylink)) [1, 2, 3] ''f''
                  209715200 example_options"
  have s: "fst ?small = Resolved ''XABvi7JtJbQSMAcDwnUnmp2FKDPjg8_tTTFP4BwMSxVdEg''"
    by code_simp
  have l: "fst ?large = Resolved ''sia://XABvi7JtJbQSMAcDwnUnmp2FKDPjg8_tTTFP4BwMSxVdEg''"
    by code_simp
  have s': "?small = (Resolved ''XABvi7JtJbQSMAcDwnUnmp2FKDPjg8_tTTFP4BwMSxVdEg'', snd ?small)"
    using s by (metis prod.collapse)
  have l': "?large = (Resolved ''sia://XABvi7JtJbQSMAcDwnUnmp2FKDPjg8_tTTFP4BwMSxVdEg'', snd ?large)"
    using l by (metis prod.collapse)
  from paths_return_formats [of "example_portal (Some example_skylink)" "[1, 2, 3]" "''f''"
      example_options "''XABvi7JtJbQSMAcDwnUnmp2FKDPjg8_tTTFP4BwMSxVdEg''" "snd ?small"
      209715200 "''sia://XABvi7JtJbQSMAcDwnUnmp2FKDPjg8_tTTFP4BwMSxVdEg''" "snd ?large"] s' l'
  have "(\<exists>call. snd ?small = [HttpRequest call] \<and> ax_method call = ''post'')
      \<and> (\<exists>call. snd ?large = [UploadStarted, HttpRequest call] \<and> ax_method call = ''head'')"
    by blast
  with s l show ?thesis by blast
qed

section \<open>Properties of the skylink codec\<close>

lemma index_of_first:
  "c \<notin> set xs \<Longrightarrow> index_of c (xs @ c # ys) = Some (length xs)"
  by (induction xs) auto

lemma replace_char_append:
  "replace_char a b (xs @ ys) = replace_char a b xs @ replace_char a b ys"
  by (simp add: replace_char_def)

lemma length_replace_char [simp]: "length (replace_char a b s) = length s"
  by (simp add: replace_char_def)

lemma replace_char_keeps_out:
  "c \<notin> set s \<Longrightarrow> c \<noteq> b \<Longrightarrow> c \<notin> set (replace_char a b s)"
  by (auto simp add: replace_char_def)

lemma padded_lens:
  assumes "length s = 46" "CHR ''='' \<notin> set s"
  shows "getLens (replace_char (CHR ''_'') (CHR ''/'') (replace_char (CHR ''-'') (CHR ''+'') (s @ ''==''))) = Inr (46, 2)"
proof -
  let ?t = "replace_char (CHR ''_'') (CHR ''/'') (replace_char (CHR ''-'') (CHR ''+'') s)"
  have t: "replace_char (CHR ''_'') (CHR ''/'') (replace_char (CHR ''-'') (CHR ''+'') (s @ ''==''))
         = ?t @ CHR ''='' # ''=''"
    by (simp add: replace_char_append) (simp add: replace_char_def)
  have "CHR ''='' \<notin> set ?t"
    using assms(2) by (simp add: replace_char_keeps_out)
  then have "index_of (CHR ''='') (?t @ CHR ''='' # ''='') = Some (length ?t)"
    by (rule index_of_first)
  then have i: "index_of (CHR ''='') (?t @ CHR ''='' # ''='') = Some 46"
    using assms(1) by simp
  have len: "length (?t @ CHR ''='' # ''='') = 48"
    using assms(1) by simp
  show ?thesis
    unfolding t getLens_def Let_def len i by simp
qed

lemma length_uint8_array [simp]: "length (uint8_array n written) = n"
  by (simp add: uint8_array_def)

lemma base64js_raw_size:
  assumes "length s = 46" "CHR ''='' \<notin> set s"
  shows "\<exists>bytes. decodeSkylinkBase64 base64js_toByteArray s = Inr bytes \<and> length bytes = RAW_SKYLINK_SIZE"
proof -
  let ?b = "replace_char (CHR ''_'') (CHR ''/'') (replace_char (CHR ''-'') (CHR ''+'') (s @ ''==''))"
  have n: "b64_byteLength 46 2 = 34"
    by (simp add: b64_byteLength_def)
  have "\<exists>bytes. base64js_toByteArray ?b = Inr bytes \<and> length bytes = 34"
    by (simp add: base64js_toByteArray_def padded_lens [OF assms] Let_def n
        del: replicate.simps upt.simps)
  then show ?thesis
    using assms(1)
    by (simp add: decodeSkylinkBase64_def BASE64_ENCODED_SKYLINK_SIZE_def RAW_SKYLINK_SIZE_def Let_def)
qed

text \<open>
  Claim C6, as the code has it. \<^verbatim>\<open>decodeSkylinkBase64\<close> fails with \<open>MalformedSkylink\<close> for
  every input whose length is not exactly 46 characters. On an input of 46 characters it
  returns what the decoder returns for the input with \<^verbatim>\<open>==\<close> appended and \<^verbatim>\<open>-\<close>, \<^verbatim>\<open>_\<close>
  translated to \<^verbatim>\<open>+\<close>, \<^verbatim>\<open>/\<close>; it makes no check of the number of bytes decoded. With the
  decoder of \<^verbatim>\<open>base64-js\<close> an input of 46 characters without \<^verbatim>\<open>=\<close> yields exactly 34
  bytes.
\<close>

theorem decode_checks_input_length_only:
  "(length skylink \<noteq> 46 \<longrightarrow> decodeSkylinkBase64 toByteArray skylink = Inl MalformedSkylink)
   \<and> (length skylink = 46 \<longrightarrow>
        decodeSkylinkBase64 toByteArray skylink
          = toByteArray (replace_char (CHR ''_'') (CHR ''/'')
                           (replace_char (CHR ''-'') (CHR ''+'') (skylink @ ''==''))))
   \<and> (length skylink = 46 \<and> CHR ''='' \<notin> set skylink \<longrightarrow>
        (\<exists>bytes. decodeSkylinkBase64 base64js_toByteArray skylink = Inr bytes
                  \<and> length bytes = RAW_SKYLINK_SIZE))"
proof (intro conjI impI)
  show "decodeSkylinkBase64 toByteArray skylink = Inl MalformedSkylink"
    if "length skylink \<noteq> 46"
    using that by (simp add: decodeSkylinkBase64_def BASE64_ENCODED_SKYLINK_SIZE_def)
  show "decodeSkylinkBase64 toByteArray skylink
          = toByteArray (replace_char (CHR ''_'') (CHR ''/'')
                           (replace_char (CHR ''-'') (CHR ''+'') (skylink @ ''=='')))"
    if "length skylink = 46"
    using that by (simp add: decodeSkylinkBase64_def BASE64_ENCODED_SKYLINK_SIZE_def Let_def)
  show "\<exists>bytes. decodeSkylinkBase64 base64js_toByteArray skylink = Inr bytes
                 \<and> length bytes = RAW_SKYLINK_SIZE"
    if "length skylink = 46 \<and> CHR ''='' \<notin> set skylink"
    using that base64js_raw_size by blast
qed

theorem decode_checks_input_length_only_witness:
  "length ''sia://XABvi7JtJbQSMAcDwnUnmp2FKDPjg8_tTTFP4BwMSxVdEg'' \<noteq> 46
   \<and> decodeSkylinkBase64 base64js_toByteArray ''sia://XABvi7JtJbQSMAcDwnUnmp2FKDPjg8_tTTFP4BwMSxVdEg''
       = Inl MalformedSkylink
   \<and> length ''XABvi7JtJbQSMAcDwnUnmp2FKDPjg8_tTTFP4BwMSxVdEg'' = 46
   \<and> CHR ''='' \<notin> set ''XABvi7JtJbQSMAcDwnUnmp2FKDPjg8_tTTFP4BwMSxVdEg''
   \<and> (\<exists>bytes. decodeSkylinkBase64 base64js_toByteArray
                 ''XABvi7JtJbQSMAcDwnUnmp2FKDPjg8_tTTFP4BwMSxVdEg'' = Inr bytes
              \<and> length bytes = RAW_SKYLINK_SIZE)"
  using decode_checks_input_length_only
      [of "''sia://XABvi7JtJbQSMAcDwnUnmp2FKDPjg8_tTTFP4BwMSxVdEg''" base64js_toByteArray,
       THEN conjunct1]
    decode_checks_input_length_only
      [of "''XABvi7JtJbQSMAcDwnUnmp2FKDPjg8_tTTFP4BwMSxVdEg''" base64js_toByteArray,
       THEN conjunct2, THEN conjunct2]
  by simp

text \<open>
  The claim as stated: every input on which decoding succeeds yields exactly 34 bytes,
  any other decoded length failing. The input below has 46 characters, the fifth of them
  \<^verbatim>\<open>=\<close>; the decoder of \<^verbatim>\<open>base64-js\<close> stops at the first \<^verbatim>\<open>=\<close> and returns 2 bytes, which
  \<^verbatim>\<open>decodeSkylinkBase64\<close> returns as they are.
\<close>

lemma short_decode_lens:
  "getLens ''AAAA=AAAAAAAAAAAAAAAAAAAAAAAAAAAAAAAAAAAAAAAAA=='' = Inr (4, 4)"
  by (simp add: getLens_def)

lemma short_decode_bytes:
  "base64js_toByteArray ''AAAA=AAAAAAAAAAAAAAAAAAAAAAAAAAAAAAAAAAAAAAAAA=='' = Inr [0, 0]"
  by (simp add: base64js_toByteArray_def short_decode_lens b64_byteLength_def uint8_array_def
      numeral_2_eq_2)

theorem decode_short_counterexample:
  "length ''AAAA=AAAAAAAAAAAAAAAAAAAAAAAAAAAAAAAAAAAAAAAAA'' = 46
   \<and> decodeSkylinkBase64 base64js_toByteArray ''AAAA=AAAAAAAAAAAAAAAAAAAAAAAAAAAAAAAAAAAAAAAAA''
       = Inr [0, 0]
   \<and> length [0, 0 :: nat] \<noteq> RAW_SKYLINK_SIZE"
  by (simp add: decodeSkylinkBase64_def BASE64_ENCODED_SKYLINK_SIZE_def RAW_SKYLINK_SIZE_def
      replace_char_def short_decode_bytes)

end
